theory Spec2Isabelle
  imports Main
begin

section \<open>The job-application email bot\<close>

text \<open>
  The repository holds two variants of one script, both called
  \<^verbatim>\<open>send_bulk_intern_emails.js\<close>: the \<^emph>\<open>simplified\<close> variant (the file of that name)
  and the \<^emph>\<open>extended\<close> variant (the script reproduced after the README text).
  Definitions of the simplified variant keep the source's names; where the extended
  variant uses the same name for a different function, its definition carries the
  suffix \<open>_ext\<close>.

  Scope of the model.
  \<^item> A JavaScript value that the scripts read from a contact record or from the process
    environment is absent (\<open>Undefined\<close>), \<open>null\<close> or a string.
  \<^item> A string is a list of 8-bit characters, each read as the code unit of that value.
  \<^item> The mail transport, the clock and the file system are the environment: the outcome
    of each \<^verbatim>\<open>sendMail\<close> call and each reading of the clock are parameters, writing the
    log file always succeeds.
  \<^item> The log file, when it can be parsed, has the shape \<open>{sent: [...], failed: [...]}\<close>.
  \<^item> Of the console output, the lines written with \<^verbatim>\<open>console.error\<close> and
    \<^verbatim>\<open>console.warn\<close> (without their decoration), the help text, the final summary and
    the notice that nothing is left to send are recorded; the progress lines are not.
\<close>

subsection \<open>JavaScript values\<close>

datatype jsval = Undefined | Null | Str string

text \<open>Truthiness: \<open>undefined\<close>, \<open>null\<close> and the empty string are falsy.\<close>

fun truthy :: "jsval \<Rightarrow> bool" where
  "truthy (Str s) = (s \<noteq> [])"
| "truthy Undefined = False"
| "truthy Null = False"

text \<open>The operator \<^verbatim>\<open>a || b\<close>.\<close>

definition js_or :: "jsval \<Rightarrow> jsval \<Rightarrow> jsval" where
  "js_or a b = (if truthy a then a else b)"

text \<open>What a template literal \<^verbatim>\<open>${v}\<close> interpolates.\<close>

fun to_string :: "jsval \<Rightarrow> string" where
  "to_string (Str s) = s"
| "to_string Undefined = ''undefined''"
| "to_string Null = ''null''"

datatype error = TypeError string | Error string

fun message :: "error \<Rightarrow> string" where
  "message (TypeError m) = m"
| "message (Error m) = m"

subsection \<open>Strings: \<^verbatim>\<open>trim\<close> and the honorific pattern\<close>

text \<open>
  White space of \<^verbatim>\<open>\s\<close> and of \<^verbatim>\<open>String.prototype.trim\<close> among the code units below
  256: tab, line feed, vertical tab, form feed, carriage return, space, no-break space.
\<close>

definition is_space :: "char \<Rightarrow> bool" where
  "is_space c = ((of_char c :: nat) \<in> {9, 10, 11, 12, 13, 32, 160})"

definition trim :: "string \<Rightarrow> string" where
  "trim s = rev (dropWhile is_space (rev (dropWhile is_space s)))"

text \<open>
  Canonicalisation of a code unit under the flag \<^verbatim>\<open>i\<close> (without \<^verbatim>\<open>u\<close>): upper case.
  A code unit of 128 or more never canonicalises to one below 128, and the pattern has
  ASCII characters only, so only the ASCII letters are mapped here.
\<close>

definition canon :: "char \<Rightarrow> nat" where
  "canon c = (let n = (of_char c :: nat) in if 97 \<le> n \<and> n \<le> 122 then n - 32 else n)"

text \<open>A literal of the pattern matched at the head of the input; the result is the rest.\<close>

fun match_ci :: "string \<Rightarrow> string \<Rightarrow> string option" where
  "match_ci [] s = Some s"
| "match_ci (p # ps) [] = None"
| "match_ci (p # ps) (c # cs) = (if canon p = canon c then match_ci ps cs else None)"

text \<open>
  The alternation \<^verbatim>\<open>(Mr\.|Mrs\.|Ms\.|Dr\.|M\.|Mme\.)\<close>: alternatives are tried from left
  to right. What follows the group, \<^verbatim>\<open>\s*\<close>, matches any input, so the first alternative
  that matches is the one the match keeps.
\<close>

definition honorifics :: "string list" where
  "honorifics = [''Mr.'', ''Mrs.'', ''Ms.'', ''Dr.'', ''M.'', ''Mme.'']"

fun match_alt :: "string list \<Rightarrow> string \<Rightarrow> string option" where
  "match_alt [] s = None"
| "match_alt (p # ps) s =
     (case match_ci p s of Some r \<Rightarrow> Some r | None \<Rightarrow> match_alt ps s)"

text \<open>\<^verbatim>\<open>s.replace(/^(Mr\.|Mrs\.|Ms\.|Dr\.|M\.|Mme\.)\s*/i, '')\<close>\<close>

definition replace_honorific :: "string \<Rightarrow> string" where
  "replace_honorific s =
     (case match_alt honorifics s of
        Some r \<Rightarrow> dropWhile is_space r
      | None \<Rightarrow> s)"

subsection \<open>The message composer\<close>

record email_message =
  subject :: string
  body :: string

text \<open>The local variable \<^verbatim>\<open>greeting\<close> of both composers, given the cleaned name.\<close>

definition greeting :: "jsval \<Rightarrow> jsval \<Rightarrow> string" where
  "greeting name companyName =
     (if truthy name \<and> name \<noteq> Str ''N/A'' then ''Dear '' @ to_string name
      else if truthy companyName \<and> companyName \<noteq> Str ''N/A''
        then ''Dear '' @ to_string companyName @ '' team''
      else ''Dear Hiring Manager'')"

text \<open>
  Simplified variant: \<^verbatim>\<open>founderName?.replace(...).trim()\<close>. The optional chaining gives
  \<open>undefined\<close> when \<open>founderName\<close> is \<open>undefined\<close> or \<open>null\<close>.
\<close>

definition clean_name :: "jsval \<Rightarrow> jsval" where
  "clean_name founderName =
     (case founderName of
        Str s \<Rightarrow> Str (trim (replace_honorific s))
      | _ \<Rightarrow> Undefined)"

definition body_rest :: string where
  "body_rest = '',\<newline>\<newline>I am a full-stack developer looking for an internship opportunity.\<newline>\<newline>I have experience with React.js, Node.js, and modern web development. I am motivated to learn and contribute to your team.\<newline>\<newline>Please find my CV attached.\<newline>\<newline>Best regards''"

definition createEmail :: "jsval \<Rightarrow> jsval \<Rightarrow> email_message" where
  "createEmail founderName companyName =
     \<lparr> subject = ''Internship Application - Full Stack Developer'',
       body = greeting (clean_name founderName) companyName @ body_rest \<rparr>"

text \<open>
  Extended variant: \<^verbatim>\<open>founderName.replace(...).trim()\<close> with no guard. Reading a property
  of \<open>undefined\<close> or \<open>null\<close> throws a \<open>TypeError\<close>.
\<close>

definition type_error_undefined :: string where
  "type_error_undefined = ''Cannot read properties of undefined (reading 'replace')''"

definition type_error_null :: string where
  "type_error_null = ''Cannot read properties of null (reading 'replace')''"

definition clean_name_ext :: "jsval \<Rightarrow> error + string" where
  "clean_name_ext founderName =
     (case founderName of
        Str s \<Rightarrow> Inr (trim (replace_honorific s))
      | Undefined \<Rightarrow> Inl (TypeError type_error_undefined)
      | Null \<Rightarrow> Inl (TypeError type_error_null))"

definition getEmailSubject :: string where
  "getEmailSubject = ''Internship Application: Fullstack / Web Development Intern Position''"

definition body_rest_ext :: string where
  "body_rest_ext = '',\<newline>\<newline>My name is xylaaaaaaaaaaaaa Quaoubai, a full-stack development student at 1337. I am looking for a Web Development / Fullstack internship.\<newline>\<newline>I work with React.js for frontend and NestJS + Fastify for backend. I can build APIs, authentication systems, dashboards, and full web applications. I enjoy writing clean code, solving problems, and learning new tools quickly.\<newline>\<newline>I am motivated, serious, and able to work on real projects. I have attached my resume so you can see my skills and previous work.\<newline>\<newline>Thank you for taking the time to read my message.  \<newline>I hope to get the chance to join your team and contribute.\<newline>\<newline>Best regards,  \<newline>Abdelbassat Quaoubai  \<newline>+212 715 822 574  \<newline>GitHub: https://github.com/xylar-99''"

definition createPersonalizedEmail :: "jsval \<Rightarrow> jsval \<Rightarrow> error + string" where
  "createPersonalizedEmail founderName companyName =
     (case clean_name_ext founderName of
        Inl e \<Rightarrow> Inl e
      | Inr cleanName \<Rightarrow> Inr (greeting (Str cleanName) companyName @ body_rest_ext))"

subsection \<open>Contacts, the send log and the environment\<close>

text \<open>A raw record of the contact list, with the fields of both naming schemes.\<close>

record company =
  email :: jsval
  companyName :: jsval
  founderName :: jsval
  EntrepriseContactEmail :: jsval
  EntrepriseName :: jsval
  EntrepriseContactName :: jsval

text \<open>
  A log entry. A field that the script does not set reads \<open>Undefined\<close> and is left out
  of the JSON file.
\<close>

record log_entry =
  entry_email :: jsval
  entry_companyName :: jsval
  entry_timestamp :: string
  entry_status :: jsval
  entry_error :: jsval

record log =
  sent :: "log_entry list"
  failed :: "log_entry list"

definition empty_log :: log where
  "empty_log = \<lparr> sent = [], failed = [] \<rparr>"

text \<open>
  A JSON file on disk: absent, present but rejected by \<^verbatim>\<open>fs.readJSON\<close> (with the
  message of the error it throws), or present with its parsed content.
\<close>

datatype 'a json_file = Missing | Malformed string | Content 'a

datatype attachment = Path string | FileContent string

record mail_options =
  mail_from :: jsval
  mail_to :: jsval
  mail_subject :: string
  mail_text :: string
  attachments :: "attachment list"

record transport =
  host :: string
  port :: nat
  secure :: bool
  auth_user :: jsval
  auth_pass :: jsval

text \<open>
  The environment of a run: the two credential variables, whether the CV file exists,
  the outcome of the \<^verbatim>\<open>sendMail\<close> call of loop iteration \<open>i\<close> (\<open>None\<close>: delivered,
  \<open>Some e\<close>: rejected with \<open>e\<close>) and the reading \<^verbatim>\<open>new Date().toISOString()\<close> taken in
  iteration \<open>i\<close>.
\<close>

record env =
  GMAIL_USER :: jsval
  GMAIL_APP_PASSWORD :: jsval
  cv_exists :: bool
  sendMail :: "nat \<Rightarrow> transport \<Rightarrow> mail_options \<Rightarrow> error option"
  now :: "nat \<Rightarrow> string"

text \<open>What a run does to the outside, in order.\<close>

datatype event =
    SendMail mail_options
  | WriteLog log
  | Sleep nat
  | Warn string
  | ConsoleError string
  | NothingNew
  | Summary nat nat "string option"
  | Usage
  | Uncaught error

text \<open>The log file after a sequence of events, from its state before them.\<close>

fun disk_after :: "log json_file \<Rightarrow> event list \<Rightarrow> log json_file" where
  "disk_after d [] = d"
| "disk_after d (WriteLog l # evs) = disk_after (Content l) evs"
| "disk_after d (_ # evs) = disk_after d evs"

fun is_Sleep :: "event \<Rightarrow> bool" where
  "is_Sleep (Sleep _) = True"
| "is_Sleep _ = False"

fun is_SendMail :: "event \<Rightarrow> bool" where
  "is_SendMail (SendMail _) = True"
| "is_SendMail _ = False"

text \<open>The recipients of the transport calls of a trace.\<close>

fun recipients :: "event list \<Rightarrow> jsval list" where
  "recipients [] = []"
| "recipients (SendMail m # evs) = mail_to m # recipients evs"
| "recipients (_ # evs) = recipients evs"

text \<open>The messages handed to the transport in a trace.\<close>

fun mails :: "event list \<Rightarrow> mail_options list" where
  "mails [] = []"
| "mails (SendMail m # evs) = m # mails evs"
| "mails (_ # evs) = mails evs"

text \<open>\<^verbatim>\<open>email.includes('@')\<close>, evaluated only where \<open>email\<close> is a non-empty string.\<close>

fun includes_at :: "jsval \<Rightarrow> bool" where
  "includes_at (Str s) = (CHR ''@'' \<in> set s)"
| "includes_at _ = False"

subsection \<open>The simplified variant\<close>

definition DELAY_MINUTES :: nat where "DELAY_MINUTES = 1"
definition CV_PATH :: string where "CV_PATH = ''./test_cv.pdf''"
definition COMPANIES_JSON :: string where "COMPANIES_JSON = ''./emails/emails.json''"
definition LOG_FILE :: string where "LOG_FILE = ''./emails/sent_emails_log.json''"

text \<open>The message of the error that reading an absent contact list throws.\<close>

definition enoent :: string where
  "enoent = ''ENOENT: no such file or directory, open '' @ [CHR 0x27] @ COMPANIES_JSON @ [CHR 0x27]"

text \<open>No check of the credentials: they are handed to the library as they are.\<close>

definition createTransport :: "env \<Rightarrow> transport" where
  "createTransport e =
     \<lparr> host = ''smtp.gmail.com'', port = 587, secure = False,
       auth_user = GMAIL_USER e, auth_pass = GMAIL_APP_PASSWORD e \<rparr>"

definition sendEmail :: "env \<Rightarrow> nat \<Rightarrow> jsval \<Rightarrow> jsval \<Rightarrow> jsval \<Rightarrow> event list \<times> error option" where
  "sendEmail e i recipient founder company_name =
     (let em = createEmail founder company_name;
          transporter = createTransport e;
          options = \<lparr> mail_from = GMAIL_USER e, mail_to = recipient, mail_subject = subject em,
                      mail_text = body em,
                      attachments = (if cv_exists e then [Path CV_PATH] else []) \<rparr>
      in ([SendMail options], sendMail e i transporter options))"

definition loadLog :: "log json_file \<Rightarrow> error + log" where
  "loadLog f =
     (case f of
        Missing \<Rightarrow> Inr empty_log
      | Malformed m \<Rightarrow> Inl (Error m)
      | Content l \<Rightarrow> Inr l)"

text \<open>\<^verbatim>\<open>sleep(minutes)\<close> sets a timer of \<open>minutes * 60000\<close> milliseconds.\<close>

definition sleep :: "nat \<Rightarrow> event" where
  "sleep minutes = Sleep (minutes * 60000)"

text \<open>The three constants at the head of the loop body (and, for the first, of the filter).\<close>

definition resolved_email :: "company \<Rightarrow> jsval" where
  "resolved_email c = js_or (email c) (EntrepriseContactEmail c)"

definition resolved_companyName :: "company \<Rightarrow> jsval" where
  "resolved_companyName c = js_or (companyName c) (EntrepriseName c)"

definition resolved_founderName :: "company \<Rightarrow> jsval" where
  "resolved_founderName c = js_or (founderName c) (EntrepriseContactName c)"

definition toSend :: "log \<Rightarrow> company list \<Rightarrow> company list" where
  "toSend l companies =
     (let alreadySent = set (map entry_email (sent l))
      in filter (\<lambda>c. let em = resolved_email c
                     in truthy em \<and> em \<noteq> Str ''N/A'' \<and> em \<notin> alreadySent \<and> includes_at em)
           companies)"

text \<open>
  One iteration of the loop, \<open>n\<close> being \<^verbatim>\<open>toSend.length\<close>: the \<^verbatim>\<open>try\<close> block (send, push
  to \<open>sent\<close>, sleep unless last), the \<^verbatim>\<open>catch\<close> block (push to \<open>failed\<close>), then
  \<^verbatim>\<open>saveLog\<close>.
\<close>

definition attempt :: "env \<Rightarrow> nat \<Rightarrow> nat \<Rightarrow> company \<Rightarrow> log \<Rightarrow> log \<times> event list" where
  "attempt e n i c l =
     (let em = resolved_email c;
          cn = resolved_companyName c;
          fn = resolved_founderName c;
          (evs, res) = sendEmail e i em fn cn
      in case res of
           None \<Rightarrow>
             (let l' = l\<lparr> sent := sent l @
                         [\<lparr> entry_email = em, entry_companyName = cn, entry_timestamp = now e i,
                            entry_status = Undefined, entry_error = Undefined \<rparr>] \<rparr>
              in (l', evs @ (if i < n - 1 then [sleep DELAY_MINUTES] else []) @ [WriteLog l']))
         | Some err \<Rightarrow>
             (let l' = l\<lparr> failed := failed l @
                         [\<lparr> entry_email = em, entry_companyName = cn, entry_timestamp = now e i,
                            entry_status = Undefined, entry_error = Str (message err) \<rparr>] \<rparr>
              in (l', evs @ [WriteLog l'])))"

fun bulk_loop :: "env \<Rightarrow> nat \<Rightarrow> nat \<Rightarrow> company list \<Rightarrow> log \<Rightarrow> log \<times> event list" where
  "bulk_loop e n i [] l = (l, [])"
| "bulk_loop e n i (c # cs) l =
     (let (l', evs) = attempt e n i c l;
          (l'', evs') = bulk_loop e n (Suc i) cs l'
      in (l'', evs @ evs'))"

text \<open>
  \<^verbatim>\<open>sendBulkEmails\<close>. An error reading either file is not caught: the function rejects
  with it (\<open>Inl\<close>). The last line prints the lengths of the two sequences of the log.
\<close>

definition sendBulkEmails :: "env \<Rightarrow> company list json_file \<Rightarrow> log json_file \<Rightarrow> error + (log \<times> event list)" where
  "sendBulkEmails e companies_json log_file =
     (case companies_json of
        Missing \<Rightarrow> Inl (Error enoent)
      | Malformed m \<Rightarrow> Inl (Error m)
      | Content companies \<Rightarrow>
          (case loadLog log_file of
             Inl err \<Rightarrow> Inl err
           | Inr l \<Rightarrow>
               (let ts = toSend l companies;
                    (l', evs) = bulk_loop e (length ts) 0 ts l
                in Inr (l', evs @ [Summary (length (sent l')) (length (failed l')) None]))))"

text \<open>
  The entry point: the events of the process and its exit status. A rejection of
  \<^verbatim>\<open>sendBulkEmails\<close> is not handled: the process ends with status 1.
\<close>

definition main :: "string list \<Rightarrow> env \<Rightarrow> company list json_file \<Rightarrow> log json_file \<Rightarrow> event list \<times> nat" where
  "main args e companies_json log_file =
     (if ''--help'' \<in> set args \<or> ''-h'' \<in> set args then ([Usage], 0)
      else (case sendBulkEmails e companies_json log_file of
              Inl err \<Rightarrow> ([Uncaught err], 1)
            | Inr (l, evs) \<Rightarrow> (evs, 0)))"

subsection \<open>The extended variant\<close>

text \<open>\<^verbatim>\<open>DELAY_BETWEEN_EMAILS: 120000 / 2\<close>, in milliseconds.\<close>

definition DELAY_BETWEEN_EMAILS :: nat where "DELAY_BETWEEN_EMAILS = 120000 div 2"

definition CV_PATH_ext :: string where
  "CV_PATH_ext = ''/home/xylar-99/Desktop/data/enginner_cv/Abdelbassat_Quaoubai_FullStack_Engineer_CV.pdf''"

definition missing_credentials :: string where
  "missing_credentials = ''Missing GMAIL_USER or GMAIL_APP_PASSWORD in environment variables or .env file''"

definition createTransport_ext :: "env \<Rightarrow> error + transport" where
  "createTransport_ext e =
     (let user = GMAIL_USER e; pass = GMAIL_APP_PASSWORD e
      in if \<not> truthy user \<or> \<not> truthy pass
         then Inl (Error missing_credentials)
         else Inr \<lparr> host = ''smtp.gmail.com'', port = 587, secure = False,
                    auth_user = user, auth_pass = pass \<rparr>)"

text \<open>
  \<^verbatim>\<open>sendEmail\<close>: compose, construct the transport, attach the CV if the file exists (warn
  otherwise), call \<^verbatim>\<open>sendMail\<close>. An error thrown by one step skips the steps after it.
\<close>

definition sendEmail_ext :: "env \<Rightarrow> nat \<Rightarrow> jsval \<Rightarrow> jsval \<Rightarrow> jsval \<Rightarrow> event list \<times> error option" where
  "sendEmail_ext e i recipient founder company_name =
     (case createPersonalizedEmail founder company_name of
        Inl err \<Rightarrow> ([], Some err)
      | Inr txt \<Rightarrow>
          (case createTransport_ext e of
             Inl err \<Rightarrow> ([], Some err)
           | Inr transporter \<Rightarrow>
               (let mailOptions =
                      \<lparr> mail_from = GMAIL_USER e, mail_to = recipient,
                        mail_subject = getEmailSubject, mail_text = txt,
                        attachments =
                          (if cv_exists e
                           then [FileContent ''Abdelbassat_Quaoubai_FullStack_Engineer_CV.pdf'']
                           else []) \<rparr>
                in ((if cv_exists e then [] else [Warn (''CV file not found at: '' @ CV_PATH_ext)])
                      @ [SendMail mailOptions],
                    sendMail e i transporter mailOptions))))"

definition loadSentLog :: "log json_file \<Rightarrow> event list \<times> log" where
  "loadSentLog f =
     (case f of
        Missing \<Rightarrow> ([], empty_log)
      | Malformed m \<Rightarrow> ([Warn (''Could not load sent log: '' @ m)], empty_log)
      | Content l \<Rightarrow> ([], l))"

text \<open>\<^verbatim>\<open>addToLog\<close>, called in iteration \<open>i\<close>: build the entry, push it, write the file.\<close>

definition addToLog ::
  "env \<Rightarrow> nat \<Rightarrow> log \<Rightarrow> jsval \<Rightarrow> jsval \<Rightarrow> string \<Rightarrow> error option \<Rightarrow> log \<times> event list" where
  "addToLog e i l em cn status err =
     (let entry = \<lparr> entry_email = em, entry_companyName = cn, entry_timestamp = now e i,
                    entry_status = Str status,
                    entry_error = (case err of Some x \<Rightarrow> Str (message x) | None \<Rightarrow> Null) \<rparr>;
          l' = (if status = ''success'' then l\<lparr> sent := sent l @ [entry] \<rparr>
                else l\<lparr> failed := failed l @ [entry] \<rparr>)
      in (l', [WriteLog l']))"

definition toSend_ext :: "log \<Rightarrow> company list \<Rightarrow> company list" where
  "toSend_ext l companies =
     (let alreadySent = set (map entry_email (sent l))
      in filter (\<lambda>c. truthy (email c) \<and> email c \<noteq> Str ''N/A'' \<and> email c \<notin> alreadySent
                     \<and> includes_at (email c))
           companies)"

record run_state =
  st_log :: log
  successCount :: nat
  failCount :: nat

text \<open>
  One iteration: the \<^verbatim>\<open>try\<close> block (send, log the success, count, sleep unless last) and
  the \<^verbatim>\<open>catch\<close> block (log the failure, count, sleep unless last).
\<close>

definition attempt_ext :: "env \<Rightarrow> nat \<Rightarrow> nat \<Rightarrow> company \<Rightarrow> run_state \<Rightarrow> run_state \<times> event list" where
  "attempt_ext e n i c st =
     (let (evs, res) = sendEmail_ext e i (email c) (founderName c) (companyName c)
      in case res of
           None \<Rightarrow>
             (let (l', w) = addToLog e i (st_log st) (email c) (companyName c) ''success'' None
              in (st\<lparr> st_log := l', successCount := successCount st + 1 \<rparr>,
                  evs @ w @ (if i < n - 1 then [Sleep DELAY_BETWEEN_EMAILS] else [])))
         | Some err \<Rightarrow>
             (let (l', w) = addToLog e i (st_log st) (email c) (companyName c) ''failed'' (Some err)
              in (st\<lparr> st_log := l', failCount := failCount st + 1 \<rparr>,
                  evs @ [ConsoleError (''Failed: '' @ message err)] @ w
                    @ (if i < n - 1 then [Sleep DELAY_BETWEEN_EMAILS] else []))))"

fun bulk_loop_ext ::
  "env \<Rightarrow> nat \<Rightarrow> nat \<Rightarrow> company list \<Rightarrow> run_state \<Rightarrow> run_state \<times> event list" where
  "bulk_loop_ext e n i [] st = (st, [])"
| "bulk_loop_ext e n i (c # cs) st =
     (let (st', evs) = attempt_ext e n i c st;
          (st'', evs') = bulk_loop_ext e n (Suc i) cs st'
      in (st'', evs @ evs'))"

text \<open>
  How \<^verbatim>\<open>sendBulkEmails\<close> ends: \<^verbatim>\<open>process.exit(1)\<close> when the contact list cannot be read,
  the early \<^verbatim>\<open>return\<close> when nothing is left to send, or the end of the loop.
\<close>

datatype run_result = LoadFailed | NothingToSend | Done run_state

definition sendBulkEmails_ext ::
  "env \<Rightarrow> company list json_file \<Rightarrow> log json_file \<Rightarrow> event list \<times> run_result" where
  "sendBulkEmails_ext e companies_json log_file =
     (case companies_json of
        Missing \<Rightarrow> ([ConsoleError (''Error loading companies file: '' @ enoent)], LoadFailed)
      | Malformed m \<Rightarrow> ([ConsoleError (''Error loading companies file: '' @ m)], LoadFailed)
      | Content companies \<Rightarrow>
          (let (w, l) = loadSentLog log_file;
               ts = toSend_ext l companies
           in if length ts = 0 then (w @ [NothingNew], NothingToSend)
              else (let (st, evs) = bulk_loop_ext e (length ts) 0 ts
                                      \<lparr> st_log = l, successCount = 0, failCount = 0 \<rparr>
                    in (w @ evs @ [Summary (successCount st) (failCount st) (Some LOG_FILE)],
                        Done st))))"

text \<open>\<^verbatim>\<open>sendSingleEmail\<close>: one message; a failure ends the process with status 1.\<close>

definition sendSingleEmail :: "env \<Rightarrow> jsval \<Rightarrow> string \<Rightarrow> string \<Rightarrow> event list \<times> nat" where
  "sendSingleEmail e em company_name founder =
     (let (evs, res) = sendEmail_ext e 0 em (Str founder) (Str company_name)
      in case res of
           None \<Rightarrow> (evs, 0)
         | Some err \<Rightarrow> (evs @ [ConsoleError (''Failed to send: '' @ message err)], 1))"

record parsed_args =
  arg_to :: jsval
  arg_companyName :: string
  arg_founderName :: string
  arg_help :: bool

definition startsWith :: "string \<Rightarrow> string \<Rightarrow> bool" where
  "startsWith s p = (take (length p) s = p)"

fun parseArgs_loop :: "string list \<Rightarrow> parsed_args \<Rightarrow> parsed_args" where
  "parseArgs_loop [] res = res"
| "parseArgs_loop (arg # argv) res =
     parseArgs_loop argv
       (if arg = ''--help'' \<or> arg = ''-h'' then res\<lparr> arg_help := True \<rparr>
        else if startsWith arg ''--to='' then res\<lparr> arg_to := Str (drop 5 arg) \<rparr>
        else if startsWith arg ''--name='' then res\<lparr> arg_companyName := drop 7 arg \<rparr>
        else if startsWith arg ''--founder='' then res\<lparr> arg_founderName := drop 10 arg \<rparr>
        else res)"

definition parseArgs :: "string list \<Rightarrow> parsed_args" where
  "parseArgs argv =
     parseArgs_loop argv
       \<lparr> arg_to = Null, arg_companyName = [], arg_founderName = [], arg_help = False \<rparr>"

definition main_ext ::
  "string list \<Rightarrow> env \<Rightarrow> company list json_file \<Rightarrow> log json_file \<Rightarrow> event list \<times> nat" where
  "main_ext argv e companies_json log_file =
     (let args = parseArgs argv
      in if arg_help args then ([Usage], 0)
         else if truthy (arg_to args)
           then sendSingleEmail e (arg_to args) (arg_companyName args) (arg_founderName args)
         else (case sendBulkEmails_ext e companies_json log_file of
                 (evs, LoadFailed) \<Rightarrow> (evs, 1)
               | (evs, _) \<Rightarrow> (evs, 0)))"

subsection \<open>The specification's wording of the composer\<close>

text \<open>
  These definitions follow the specification, not the code: a token of the fixed set is
  a leading honorific of \<open>s\<close> when it equals the head of \<open>s\<close> up to letter case; the
  cleaned name is \<open>s\<close> without that token; the greeting is chosen by priority.
\<close>

definition ci_prefix :: "string \<Rightarrow> string \<Rightarrow> bool" where
  "ci_prefix t s = (length t \<le> length s \<and> map canon (take (length t) s) = map canon t)"

definition spec_strip_honorific :: "string \<Rightarrow> string" where
  "spec_strip_honorific s =
     (case find (\<lambda>t. ci_prefix t s) honorifics of
        Some t \<Rightarrow> drop (length t) s
      | None \<Rightarrow> s)"

definition spec_greeting :: "string \<Rightarrow> jsval \<Rightarrow> string" where
  "spec_greeting name c =
     (if name \<noteq> [] \<and> name \<noteq> ''N/A'' then ''Dear '' @ name
      else (case c of
              Str s \<Rightarrow> (if s \<noteq> [] \<and> s \<noteq> ''N/A'' then ''Dear '' @ s @ '' team''
                        else ''Dear Hiring Manager'')
            | _ \<Rightarrow> ''Dear Hiring Manager''))"

text \<open>
  Two raw records are equivalent for the simplified variant when the three constants at
  the head of its loop body take the same values on them.
\<close>

definition same_resolved :: "company \<Rightarrow> company \<Rightarrow> bool" where
  "same_resolved c c' =
     (resolved_email c = resolved_email c' \<and> resolved_companyName c = resolved_companyName c'
      \<and> resolved_founderName c = resolved_founderName c')"

subsection \<open>An account of a run: outcomes, entries and transport calls\<close>

text \<open>
  These definitions say, contact by contact, what a run is expected to do; the theorems
  compare the loops with them. A contact is taken with its position in the list of the
  contacts left to send to, which is the index of its loop iteration. For the simplified
  variant: the message handed to the transport, the outcome of that call, the entry that
  an accepted delivery and a rejected one call for, and the entries that a list of
  contacts calls for in \<open>sent\<close> and in \<open>failed\<close>. For the extended variant the same,
  where the outcome of an attempt is the error thrown by composing, else the error thrown by
  constructing the transport, else the outcome of the transport call, and where the
  transport is called only when neither of the first two throws.
\<close>

definition indexed :: "nat \<Rightarrow> 'a list \<Rightarrow> (nat \<times> 'a) list" where
  "indexed i cs = zip [i..<i + length cs] cs"

definition the_mail :: "env \<Rightarrow> company \<Rightarrow> mail_options" where
  "the_mail e c =
     \<lparr> mail_from = GMAIL_USER e, mail_to = resolved_email c,
       mail_subject = subject (createEmail (resolved_founderName c) (resolved_companyName c)),
       mail_text = body (createEmail (resolved_founderName c) (resolved_companyName c)),
       attachments = (if cv_exists e then [Path CV_PATH] else []) \<rparr>"

definition delivery :: "env \<Rightarrow> nat \<Rightarrow> company \<Rightarrow> error option" where
  "delivery e i c = sendMail e i (createTransport e) (the_mail e c)"

definition sent_entry :: "env \<Rightarrow> nat \<Rightarrow> company \<Rightarrow> log_entry" where
  "sent_entry e i c =
     \<lparr> entry_email = resolved_email c, entry_companyName = resolved_companyName c,
       entry_timestamp = now e i, entry_status = Undefined, entry_error = Undefined \<rparr>"

definition failed_entry :: "env \<Rightarrow> nat \<Rightarrow> company \<Rightarrow> error \<Rightarrow> log_entry" where
  "failed_entry e i c err =
     \<lparr> entry_email = resolved_email c, entry_companyName = resolved_companyName c,
       entry_timestamp = now e i, entry_status = Undefined, entry_error = Str (message err) \<rparr>"

definition new_sent :: "env \<Rightarrow> (nat \<times> company) list \<Rightarrow> log_entry list" where
  "new_sent e ics =
     concat (map (\<lambda>(i, c). case delivery e i c of None \<Rightarrow> [sent_entry e i c] | Some err \<Rightarrow> []) ics)"

definition new_failed :: "env \<Rightarrow> (nat \<times> company) list \<Rightarrow> log_entry list" where
  "new_failed e ics =
     concat (map (\<lambda>(i, c). case delivery e i c of None \<Rightarrow> [] | Some err \<Rightarrow> [failed_entry e i c err]) ics)"

definition the_mail_ext :: "env \<Rightarrow> company \<Rightarrow> string \<Rightarrow> mail_options" where
  "the_mail_ext e c txt =
     \<lparr> mail_from = GMAIL_USER e, mail_to = email c, mail_subject = getEmailSubject,
       mail_text = txt,
       attachments = (if cv_exists e
                      then [FileContent ''Abdelbassat_Quaoubai_FullStack_Engineer_CV.pdf'']
                      else []) \<rparr>"

definition delivery_ext :: "env \<Rightarrow> nat \<Rightarrow> company \<Rightarrow> error option" where
  "delivery_ext e i c =
     (case createPersonalizedEmail (founderName c) (companyName c) of
        Inl err \<Rightarrow> Some err
      | Inr txt \<Rightarrow>
          (case createTransport_ext e of
             Inl err \<Rightarrow> Some err
           | Inr t \<Rightarrow> sendMail e i t (the_mail_ext e c txt)))"

definition transport_calls_ext :: "env \<Rightarrow> company \<Rightarrow> mail_options list" where
  "transport_calls_ext e c =
     (case createPersonalizedEmail (founderName c) (companyName c) of
        Inl err \<Rightarrow> []
      | Inr txt \<Rightarrow>
          (case createTransport_ext e of
             Inl err \<Rightarrow> []
           | Inr t \<Rightarrow> [the_mail_ext e c txt]))"

definition sent_entry_ext :: "env \<Rightarrow> nat \<Rightarrow> company \<Rightarrow> log_entry" where
  "sent_entry_ext e i c =
     \<lparr> entry_email = email c, entry_companyName = companyName c,
       entry_timestamp = now e i, entry_status = Str ''success'', entry_error = Null \<rparr>"

definition failed_entry_ext :: "env \<Rightarrow> nat \<Rightarrow> company \<Rightarrow> error \<Rightarrow> log_entry" where
  "failed_entry_ext e i c err =
     \<lparr> entry_email = email c, entry_companyName = companyName c,
       entry_timestamp = now e i, entry_status = Str ''failed'', entry_error = Str (message err) \<rparr>"

definition new_sent_ext :: "env \<Rightarrow> (nat \<times> company) list \<Rightarrow> log_entry list" where
  "new_sent_ext e ics =
     concat (map (\<lambda>(i, c). case delivery_ext e i c of None \<Rightarrow> [sent_entry_ext e i c] | Some err \<Rightarrow> []) ics)"

definition new_failed_ext :: "env \<Rightarrow> (nat \<times> company) list \<Rightarrow> log_entry list" where
  "new_failed_ext e ics =
     concat (map (\<lambda>(i, c). case delivery_ext e i c of None \<Rightarrow> []
                            | Some err \<Rightarrow> [failed_entry_ext e i c err]) ics)"

subsection \<open>Concrete inputs\<close>

text \<open>
  Environments: credentials set and every delivery accepted; the delivery of the first
  iteration rejected; no credentials, so that the server rejects every delivery. Contacts: two in the native scheme, the two records
  of the field-scheme example, one without a founder name.
\<close>

definition clock :: "nat \<Rightarrow> string" where
  "clock i = (if i = 0 then ''2026-01-13T12:00:00.000Z'' else ''2026-01-13T12:01:00.000Z'')"

definition env_ok :: env where
  "env_ok = \<lparr> GMAIL_USER = Str ''me@gmail.com'', GMAIL_APP_PASSWORD = Str ''secret'',
              cv_exists = True, sendMail = (\<lambda>i t m. None), now = clock \<rparr>"

definition env_fail_first :: env where
  "env_fail_first = env_ok\<lparr> sendMail := (\<lambda>i t m. if i = 0 then Some (Error ''Invalid login'') else None) \<rparr>"

definition env_nocreds :: env where
  "env_nocreds = env_ok\<lparr> GMAIL_USER := Undefined, GMAIL_APP_PASSWORD := Undefined,
                         sendMail := (\<lambda>i t m. Some (Error ''Missing credentials for PLAIN'')) \<rparr>"

definition no_company :: company where
  "no_company = \<lparr> email = Undefined, companyName = Undefined, founderName = Undefined,
                  EntrepriseContactEmail = Undefined, EntrepriseName = Undefined,
                  EntrepriseContactName = Undefined \<rparr>"

definition contact1 :: company where
  "contact1 = no_company\<lparr> email := Str ''hr@one.com'', companyName := Str ''One'',
                           founderName := Str ''Ann'' \<rparr>"

definition contact2 :: company where
  "contact2 = no_company\<lparr> email := Str ''hr@two.com'', companyName := Str ''Two'',
                           founderName := Str ''Bob'' \<rparr>"

definition contact_nofounder :: company where
  "contact_nofounder = no_company\<lparr> email := Str ''hr@one.com'', companyName := Str ''One'' \<rparr>"

definition rec_native :: company where
  "rec_native = no_company\<lparr> email := Str ''a@b.com'', companyName := Str ''X'',
                             founderName := Str ''Y'' \<rparr>"

definition rec_alt :: company where
  "rec_alt = no_company\<lparr> EntrepriseContactEmail := Str ''a@b.com'', EntrepriseName := Str ''X'',
                          EntrepriseContactName := Str ''Y'' \<rparr>"

definition prior_entry :: log_entry where
  "prior_entry = \<lparr> entry_email = Str ''hr@old.com'', entry_companyName = Str ''Old'',
                   entry_timestamp = ''2026-01-12T09:00:00.000Z'', entry_status = Undefined,
                   entry_error = Undefined \<rparr>"

definition prior_log :: log where
  "prior_log = \<lparr> sent = [prior_entry], failed = [] \<rparr>"

definition contact_old :: company where
  "contact_old = no_company\<lparr> email := Str ''hr@old.com'', companyName := Str ''Old'',
                              founderName := Str ''Zed'' \<rparr>"

definition contact_altfounder :: company where
  "contact_altfounder = no_company\<lparr> email := Str ''hr@one.com'', companyName := Str ''One'',
                                     EntrepriseContactName := Str ''Y'' \<rparr>"

section \<open>Properties\<close>

subsection \<open>The composer\<close>

lemma match_ci_iff: "match_ci t s = Some r \<longleftrightarrow> ci_prefix t s \<and> r = drop (length t) s"
  by (induction t s rule: match_ci.induct) (auto simp: ci_prefix_def)

lemma match_ci_None: "match_ci t s = None \<longleftrightarrow> \<not> ci_prefix t s"
  using match_ci_iff [of t s] by (cases "match_ci t s") auto

lemma match_alt_find:
  "match_alt ts s = map_option (\<lambda>t. drop (length t) s) (find (\<lambda>t. ci_prefix t s) ts)"
proof (induction ts)
  case Nil
  show ?case by simp
next
  case (Cons t ts)
  show ?case
  proof (cases "ci_prefix t s")
    case True
    then have "match_ci t s = Some (drop (length t) s)" by (simp add: match_ci_iff)
    with True show ?thesis by simp
  next
    case False
    then have "match_ci t s = None" by (simp add: match_ci_None)
    with False Cons show ?thesis by simp
  qed
qed

lemma trim_dropWhile: "trim (dropWhile is_space r) = trim r"
  by (simp add: trim_def)

lemma clean_spec: "trim (replace_honorific f) = trim (spec_strip_honorific f)"
  by (simp add: replace_honorific_def spec_strip_honorific_def match_alt_find trim_dropWhile
      split: option.splits)

lemma greeting_spec: "greeting (Str n) c = spec_greeting n c"
  by (cases c) (auto simp: greeting_def spec_greeting_def)

lemma ci_prefix_simps:
  "ci_prefix [] s = True"
  "ci_prefix (p # ps) [] = False"
  "ci_prefix (p # ps) (c # cs) = (canon p = canon c \<and> ci_prefix ps cs)"
  by (auto simp: ci_prefix_def)

lemma canon_literals:
  "canon CHR ''M'' = 77" "canon CHR ''m'' = 77" "canon CHR ''r'' = 82" "canon CHR ''s'' = 83"
  "canon CHR ''D'' = 68" "canon CHR ''e'' = 69" "canon CHR ''.'' = 46"
  by (simp_all add: canon_def)

text \<open>The tokens exclude each other: at most one is a leading honorific of a string.\<close>

lemma honorific_unique: "length (filter (\<lambda>t. ci_prefix t f) honorifics) \<le> 1"
proof (cases f)
  case Nil
  then show ?thesis by (simp add: honorifics_def ci_prefix_simps)
next
  case (Cons a f1)
  note f = this
  show ?thesis
  proof (cases f1)
    case Nil
    with f show ?thesis by (simp add: honorifics_def ci_prefix_simps)
  next
    case (Cons b f2)
    note f1 = this
    show ?thesis
    proof (cases f2)
      case Nil
      with f f1 show ?thesis
        by (simp add: honorifics_def ci_prefix_simps canon_literals)
    next
      case (Cons c f3)
      with f f1 show ?thesis
        by (cases f3) (auto simp add: honorifics_def ci_prefix_simps canon_literals)
    qed
  qed
qed

lemmas compose_defs =
  createEmail_def createPersonalizedEmail_def clean_name_def clean_name_ext_def
  type_error_undefined_def type_error_null_def
  replace_honorific_def honorifics_def canon_def trim_def is_space_def greeting_def

text \<open>
  For a founder name that is a string, both composers strip the one leading honorific of
  the fixed set (whatever its letter case) and trim, then greet by priority: the cleaned
  name if it is non-empty and not \<open>N/A\<close>, else the company name if it is present and not
  \<open>N/A\<close> (followed by \<open>team\<close>), else \<open>Hiring Manager\<close>. At most one token of the set
  can lead a string. The three examples of the specification evaluate as it says.
\<close>

theorem greeting_fallback_chain:
  "trim (replace_honorific f) = trim (spec_strip_honorific f)
   \<and> length (filter (\<lambda>t. ci_prefix t f) honorifics) \<le> 1
   \<and> body (createEmail (Str f) c) = spec_greeting (trim (spec_strip_honorific f)) c @ body_rest
   \<and> createPersonalizedEmail (Str f) c
       = Inr (spec_greeting (trim (spec_strip_honorific f)) c @ body_rest_ext)
   \<and> body (createEmail (Str ''Dr. Jane Doe'') (Str ''Acme'')) = ''Dear Jane Doe'' @ body_rest
   \<and> body (createEmail (Str ''N/A'') (Str ''Acme'')) = ''Dear Acme team'' @ body_rest
   \<and> body (createEmail (Str ''N/A'') (Str ''N/A'')) = ''Dear Hiring Manager'' @ body_rest
   \<and> createPersonalizedEmail (Str ''Dr. Jane Doe'') (Str ''Acme'')
       = Inr (''Dear Jane Doe'' @ body_rest_ext)
   \<and> createPersonalizedEmail (Str ''N/A'') (Str ''Acme'') = Inr (''Dear Acme team'' @ body_rest_ext)
   \<and> createPersonalizedEmail (Str ''N/A'') (Str ''N/A'')
       = Inr (''Dear Hiring Manager'' @ body_rest_ext)"
proof -
  have a: "trim (replace_honorific f) = trim (spec_strip_honorific f)"
    by (rule clean_spec)
  have b: "body (createEmail (Str f) c) = spec_greeting (trim (spec_strip_honorific f)) c @ body_rest"
    by (simp add: createEmail_def clean_name_def greeting_spec clean_spec)
  have c: "createPersonalizedEmail (Str f) c
             = Inr (spec_greeting (trim (spec_strip_honorific f)) c @ body_rest_ext)"
    by (simp add: createPersonalizedEmail_def clean_name_ext_def greeting_spec clean_spec)
  have e1: "body (createEmail (Str ''Dr. Jane Doe'') (Str ''Acme'')) = ''Dear Jane Doe'' @ body_rest"
    by (simp add: compose_defs)
  have e2: "body (createEmail (Str ''N/A'') (Str ''Acme'')) = ''Dear Acme team'' @ body_rest"
    by (simp add: compose_defs)
  have e3: "body (createEmail (Str ''N/A'') (Str ''N/A'')) = ''Dear Hiring Manager'' @ body_rest"
    by (simp add: compose_defs)
  have x1: "createPersonalizedEmail (Str ''Dr. Jane Doe'') (Str ''Acme'')
              = Inr (''Dear Jane Doe'' @ body_rest_ext)"
    by (simp add: compose_defs)
  have x2: "createPersonalizedEmail (Str ''N/A'') (Str ''Acme'')
              = Inr (''Dear Acme team'' @ body_rest_ext)"
    by (simp add: compose_defs)
  have x3: "createPersonalizedEmail (Str ''N/A'') (Str ''N/A'')
              = Inr (''Dear Hiring Manager'' @ body_rest_ext)"
    by (simp add: compose_defs)
  from a honorific_unique b c e1 e2 e3 x1 x2 x3 show ?thesis by blast
qed

theorem greeting_fallback_chain_witness:
  "body (createEmail (Str ''mme.  Curie '') (Str ''Acme'')) = ''Dear Curie'' @ body_rest
   \<and> createPersonalizedEmail (Str ''mme.  Curie '') (Str ''Acme'')
       = Inr (''Dear Curie'' @ body_rest_ext)"
  using greeting_fallback_chain [of "''mme.  Curie ''" "Str ''Acme''"]
  by (simp add: spec_greeting_def spec_strip_honorific_def honorifics_def ci_prefix_def
      canon_def trim_def is_space_def)

subsection \<open>The dispatch loop: what one run adds to the log and whom it mails\<close>

lemma recipients_append: "recipients (xs @ ys) = recipients xs @ recipients ys"
  by (induction xs rule: recipients.induct) simp_all

lemma disk_after_append: "disk_after d (xs @ ys) = disk_after (disk_after d xs) ys"
  by (induction d xs rule: disk_after.induct) simp_all

lemma attempt_result:
  assumes "attempt e n i c l = (l', evs)"
  shows "recipients evs = [resolved_email c]"
    and "(\<exists>x. sent l' = sent l @ [x] \<and> failed l' = failed l
              \<and> entry_email x = resolved_email c \<and> entry_companyName x = resolved_companyName c
              \<and> entry_timestamp x = now e i \<and> entry_status x = Undefined
              \<and> entry_error x = Undefined)
         \<or> (\<exists>x m. failed l' = failed l @ [x] \<and> sent l' = sent l
              \<and> entry_email x = resolved_email c \<and> entry_companyName x = resolved_companyName c
              \<and> entry_timestamp x = now e i \<and> entry_status x = Undefined
              \<and> entry_error x = Str m)"
  using assms
  by (auto simp: attempt_def sendEmail_def Let_def sleep_def recipients_append split: option.splits)

lemma bulk_loop_result:
  "bulk_loop e n i cs l = (l', evs) \<Longrightarrow>
     recipients evs = map resolved_email cs
     \<and> (\<exists>ns nf. sent l' = sent l @ ns \<and> failed l' = failed l @ nf
          \<and> length ns + length nf = length cs
          \<and> (\<forall>x\<in>set ns. entry_status x = Undefined \<and> entry_error x = Undefined
                \<and> (\<exists>c\<in>set cs. entry_email x = resolved_email c
                                \<and> entry_companyName x = resolved_companyName c)
                \<and> (\<exists>j. entry_timestamp x = now e j))
          \<and> (\<forall>x\<in>set nf. entry_status x = Undefined \<and> (\<exists>m. entry_error x = Str m)
                \<and> (\<exists>c\<in>set cs. entry_email x = resolved_email c
                                \<and> entry_companyName x = resolved_companyName c)
                \<and> (\<exists>j. entry_timestamp x = now e j)))"
proof (induction cs arbitrary: i l l' evs)
  case Nil
  then show ?case by simp
next
  case (Cons c cs)
  obtain l1 ev1 where a: "attempt e n i c l = (l1, ev1)" by (cases "attempt e n i c l")
  obtain l2 ev2 where b: "bulk_loop e n (Suc i) cs l1 = (l2, ev2)"
    by (cases "bulk_loop e n (Suc i) cs l1")
  from Cons.prems a b have eq: "l' = l2" "evs = ev1 @ ev2" by simp_all
  from Cons.IH [OF b] obtain ns nf where
    r: "recipients ev2 = map resolved_email cs"
    and ih: "sent l2 = sent l1 @ ns" "failed l2 = failed l1 @ nf"
      "length ns + length nf = length cs"
      "\<forall>x\<in>set ns. entry_status x = Undefined \<and> entry_error x = Undefined
                \<and> (\<exists>c\<in>set cs. entry_email x = resolved_email c
                                \<and> entry_companyName x = resolved_companyName c)
                \<and> (\<exists>j. entry_timestamp x = now e j)"
      "\<forall>x\<in>set nf. entry_status x = Undefined \<and> (\<exists>m. entry_error x = Str m)
                \<and> (\<exists>c\<in>set cs. entry_email x = resolved_email c
                                \<and> entry_companyName x = resolved_companyName c)
                \<and> (\<exists>j. entry_timestamp x = now e j)"
    by blast
  have rec: "recipients evs = map resolved_email (c # cs)"
    using attempt_result(1) [OF a] r eq by (simp add: recipients_append)
  from attempt_result(2) [OF a] show ?case
  proof (elim disjE exE conjE)
    fix x
    assume x: "sent l1 = sent l @ [x]" "failed l1 = failed l"
      "entry_email x = resolved_email c" "entry_companyName x = resolved_companyName c"
      "entry_timestamp x = now e i" "entry_status x = Undefined" "entry_error x = Undefined"
    show ?thesis
      apply (rule conjI [OF rec])
      apply (rule exI [of _ "x # ns"], rule exI [of _ nf])
      using x ih eq by auto
  next
    fix x m
    assume x: "failed l1 = failed l @ [x]" "sent l1 = sent l"
      "entry_email x = resolved_email c" "entry_companyName x = resolved_companyName c"
      "entry_timestamp x = now e i" "entry_status x = Undefined" "entry_error x = Str m"
    show ?thesis
      apply (rule conjI [OF rec])
      apply (rule exI [of _ ns], rule exI [of _ "x # nf"])
      using x ih eq by auto
  qed
qed

lemma attempt_ext_result:
  assumes "attempt_ext e n i c st = (st', evs)"
  shows "(\<exists>x. sent (st_log st') = sent (st_log st) @ [x] \<and> failed (st_log st') = failed (st_log st)
              \<and> successCount st' = successCount st + 1 \<and> failCount st' = failCount st
              \<and> recipients evs = [email c]
              \<and> entry_email x = email c \<and> entry_companyName x = companyName c
              \<and> entry_timestamp x = now e i \<and> entry_status x = Str ''success''
              \<and> entry_error x = Null)
         \<or> (\<exists>x m. failed (st_log st') = failed (st_log st) @ [x]
              \<and> sent (st_log st') = sent (st_log st)
              \<and> successCount st' = successCount st \<and> failCount st' = failCount st + 1
              \<and> set (recipients evs) \<subseteq> {email c}
              \<and> entry_email x = email c \<and> entry_companyName x = companyName c
              \<and> entry_timestamp x = now e i \<and> entry_status x = Str ''failed''
              \<and> entry_error x = Str m)"
  using assms
  by (auto simp: attempt_ext_def sendEmail_ext_def addToLog_def Let_def recipients_append
      split: option.splits sum.splits prod.splits if_splits)

lemma bulk_loop_ext_result:
  "bulk_loop_ext e n i cs st = (st', evs) \<Longrightarrow>
     set (recipients evs) \<subseteq> set (map email cs)
     \<and> (\<exists>ns nf. sent (st_log st') = sent (st_log st) @ ns
          \<and> failed (st_log st') = failed (st_log st) @ nf
          \<and> successCount st' = successCount st + length ns
          \<and> failCount st' = failCount st + length nf
          \<and> length ns + length nf = length cs
          \<and> (\<forall>x\<in>set ns. entry_status x = Str ''success'' \<and> entry_error x = Null
                \<and> (\<exists>c\<in>set cs. entry_email x = email c \<and> entry_companyName x = companyName c)
                \<and> (\<exists>j. entry_timestamp x = now e j))
          \<and> (\<forall>x\<in>set nf. entry_status x = Str ''failed'' \<and> (\<exists>m. entry_error x = Str m)
                \<and> (\<exists>c\<in>set cs. entry_email x = email c \<and> entry_companyName x = companyName c)
                \<and> (\<exists>j. entry_timestamp x = now e j)))"
proof (induction cs arbitrary: i st st' evs)
  case Nil
  then show ?case by simp
next
  case (Cons c cs)
  obtain s1 ev1 where a: "attempt_ext e n i c st = (s1, ev1)" by (cases "attempt_ext e n i c st")
  obtain s2 ev2 where b: "bulk_loop_ext e n (Suc i) cs s1 = (s2, ev2)"
    by (cases "bulk_loop_ext e n (Suc i) cs s1")
  from Cons.prems a b have eq: "st' = s2" "evs = ev1 @ ev2" by simp_all
  from Cons.IH [OF b] obtain ns nf where
    r: "set (recipients ev2) \<subseteq> set (map email cs)"
    and ih: "sent (st_log s2) = sent (st_log s1) @ ns" "failed (st_log s2) = failed (st_log s1) @ nf"
      "successCount s2 = successCount s1 + length ns" "failCount s2 = failCount s1 + length nf"
      "length ns + length nf = length cs"
      "\<forall>x\<in>set ns. entry_status x = Str ''success'' \<and> entry_error x = Null
                \<and> (\<exists>c\<in>set cs. entry_email x = email c \<and> entry_companyName x = companyName c)
                \<and> (\<exists>j. entry_timestamp x = now e j)"
      "\<forall>x\<in>set nf. entry_status x = Str ''failed'' \<and> (\<exists>m. entry_error x = Str m)
                \<and> (\<exists>c\<in>set cs. entry_email x = email c \<and> entry_companyName x = companyName c)
                \<and> (\<exists>j. entry_timestamp x = now e j)"
    by blast
  from attempt_ext_result [OF a] show ?case
  proof (elim disjE exE conjE)
    fix x
    assume x: "sent (st_log s1) = sent (st_log st) @ [x]" "failed (st_log s1) = failed (st_log st)"
      "successCount s1 = successCount st + 1" "failCount s1 = failCount st"
      "recipients ev1 = [email c]"
      "entry_email x = email c" "entry_companyName x = companyName c"
      "entry_timestamp x = now e i" "entry_status x = Str ''success''" "entry_error x = Null"
    have rec: "set (recipients evs) \<subseteq> set (map email (c # cs))"
      using x(5) r eq by (auto simp: recipients_append)
    show ?thesis
      apply (rule conjI [OF rec])
      apply (rule exI [of _ "x # ns"], rule exI [of _ nf])
      using x ih eq by auto
  next
    fix x m
    assume x: "failed (st_log s1) = failed (st_log st) @ [x]" "sent (st_log s1) = sent (st_log st)"
      "successCount s1 = successCount st" "failCount s1 = failCount st + 1"
      "set (recipients ev1) \<subseteq> {email c}"
      "entry_email x = email c" "entry_companyName x = companyName c"
      "entry_timestamp x = now e i" "entry_status x = Str ''failed''" "entry_error x = Str m"
    have rec: "set (recipients evs) \<subseteq> set (map email (c # cs))"
      using x(5) r eq by (auto simp: recipients_append)
    show ?thesis
      apply (rule conjI [OF rec])
      apply (rule exI [of _ ns], rule exI [of _ "x # nf"])
      using x ih eq by auto
  qed
qed

lemma toSend_not_sent:
  "c \<in> set (toSend l companies) \<Longrightarrow> resolved_email c \<notin> set (map entry_email (sent l))"
  by (auto simp: toSend_def Let_def)

lemma toSend_ext_not_sent:
  "c \<in> set (toSend_ext l companies) \<Longrightarrow> email c \<notin> set (map entry_email (sent l))"
  by (auto simp: toSend_ext_def Let_def)

lemma toSend_subset: "set (toSend l companies) \<subseteq> set companies"
  by (auto simp: toSend_def Let_def)

lemma toSend_ext_subset: "set (toSend_ext l companies) \<subseteq> set companies"
  by (auto simp: toSend_ext_def Let_def)

lemma recipients_Summary [simp]: "recipients (evs @ [Summary a b p]) = recipients evs"
  by (simp add: recipients_append)

lemmas run_defs =
  sendBulkEmails_def loadLog_def toSend_def attempt_def sendEmail_def sleep_def
  resolved_email_def resolved_companyName_def resolved_founderName_def js_or_def
  DELAY_MINUTES_def Let_def

lemmas run_ext_defs =
  sendBulkEmails_ext_def loadSentLog_def toSend_ext_def attempt_ext_def sendEmail_ext_def
  addToLog_def createTransport_ext_def createPersonalizedEmail_def clean_name_ext_def
  DELAY_BETWEEN_EMAILS_def Let_def

lemmas input_defs =
  env_ok_def env_fail_first_def env_nocreds_def no_company_def contact1_def contact2_def
  contact_nofounder_def rec_native_def rec_alt_def prior_entry_def prior_log_def clock_def
  empty_log_def contact_old_def contact_altfounder_def

subsection \<open>Skipping contacts already in the log\<close>

text \<open>
  Claim C9. If an address is the email of an entry of the loaded log's \<open>sent\<close> sequence,
  then a run of either variant makes no transport call to that address, and the \<open>sent\<close>
  sequence after the run is the loaded one followed by entries none of which has that
  address.
\<close>

theorem idempotent_skip:
  assumes "em \<in> set (map entry_email (sent l))"
  shows "(\<exists>l' evs new. sendBulkEmails e (Content companies) (Content l) = Inr (l', evs)
            \<and> em \<notin> set (recipients evs)
            \<and> sent l' = sent l @ new \<and> em \<notin> set (map entry_email new))
       \<and> (\<exists>evs res. sendBulkEmails_ext e (Content companies) (Content l) = (evs, res)
            \<and> em \<notin> set (recipients evs)
            \<and> (case res of
                  Done st \<Rightarrow> (\<exists>new. sent (st_log st) = sent l @ new \<and> em \<notin> set (map entry_email new))
                | NothingToSend \<Rightarrow> True
                | LoadFailed \<Rightarrow> False))"
proof (rule conjI)
  let ?ts = "toSend l companies"
  obtain l' evs where b: "bulk_loop e (length ?ts) 0 ?ts l = (l', evs)"
    by (cases "bulk_loop e (length ?ts) 0 ?ts l")
  from bulk_loop_result [OF b] obtain ns where
    r: "recipients evs = map resolved_email ?ts" and s: "sent l' = sent l @ ns"
    and n: "\<forall>x\<in>set ns. \<exists>c\<in>set ?ts. entry_email x = resolved_email c"
    by blast
  have ne: "\<forall>c\<in>set ?ts. resolved_email c \<noteq> em"
    using assms toSend_not_sent [of _ l companies] by blast
  have "em \<notin> set (recipients evs)"
    using r ne by auto
  moreover have "em \<notin> set (map entry_email ns)"
    using n ne by (fastforce simp: image_iff)
  moreover have "sendBulkEmails e (Content companies) (Content l)
                   = Inr (l', evs @ [Summary (length (sent l')) (length (failed l')) None])"
    using b by (simp add: sendBulkEmails_def loadLog_def Let_def)
  ultimately show "\<exists>l' evs new. sendBulkEmails e (Content companies) (Content l) = Inr (l', evs)
            \<and> em \<notin> set (recipients evs)
            \<and> sent l' = sent l @ new \<and> em \<notin> set (map entry_email new)"
    using s by simp
next
  let ?ts = "toSend_ext l companies"
  let ?st0 = "\<lparr> st_log = l, successCount = 0, failCount = 0 \<rparr>"
  show "\<exists>evs res. sendBulkEmails_ext e (Content companies) (Content l) = (evs, res)
            \<and> em \<notin> set (recipients evs)
            \<and> (case res of
                  Done st \<Rightarrow> (\<exists>new. sent (st_log st) = sent l @ new \<and> em \<notin> set (map entry_email new))
                | NothingToSend \<Rightarrow> True
                | LoadFailed \<Rightarrow> False)"
  proof (cases "length ?ts = 0")
    case True
    then show ?thesis by (simp add: sendBulkEmails_ext_def loadSentLog_def Let_def)
  next
    case False
    obtain st evs where b: "bulk_loop_ext e (length ?ts) 0 ?ts ?st0 = (st, evs)"
      by (cases "bulk_loop_ext e (length ?ts) 0 ?ts ?st0")
    from bulk_loop_ext_result [OF b]
    have "\<exists>ns. set (recipients evs) \<subseteq> set (map email ?ts) \<and> sent (st_log st) = sent l @ ns
            \<and> (\<forall>x\<in>set ns. \<exists>c\<in>set ?ts. entry_email x = email c)"
      by simp blast
    then obtain ns where
      r: "set (recipients evs) \<subseteq> set (map email ?ts)" and s: "sent (st_log st) = sent l @ ns"
      and n: "\<forall>x\<in>set ns. \<exists>c\<in>set ?ts. entry_email x = email c"
      by blast
    have ne: "\<forall>c\<in>set ?ts. email c \<noteq> em"
      using assms toSend_ext_not_sent [of _ l companies] by blast
    have "em \<notin> set (recipients evs)"
      using r ne by auto
    moreover have "em \<notin> set (map entry_email ns)"
      using n ne by (fastforce simp: image_iff)
    moreover have "sendBulkEmails_ext e (Content companies) (Content l)
                   = (evs @ [Summary (successCount st) (failCount st) (Some LOG_FILE)], Done st)"
      using b False by (simp add: sendBulkEmails_ext_def loadSentLog_def Let_def)
    ultimately show ?thesis using s by simp
  qed
qed

theorem idempotent_skip_witness:
  "Str ''hr@old.com'' \<in> set (map entry_email (sent prior_log))
   \<and> (\<exists>l' evs new. sendBulkEmails env_ok (Content [contact_old, contact1]) (Content prior_log)
                        = Inr (l', evs)
         \<and> Str ''hr@old.com'' \<notin> set (recipients evs)
         \<and> sent l' = sent prior_log @ new \<and> Str ''hr@old.com'' \<notin> set (map entry_email new))"
proof -
  have h: "Str ''hr@old.com'' \<in> set (map entry_email (sent prior_log))"
    by (simp add: input_defs)
  from idempotent_skip [OF h, of env_ok "[contact_old, contact1]"] h show ?thesis by blast
qed

subsection \<open>Loading the log\<close>

text \<open>
  Claim C5, as amended. In both variants loading returns the content of a log file that
  parses and the empty log \<open>{sent: [], failed: []}\<close> when there is no file. When the
  file does not parse, the extended variant warns and goes on with the empty log, so that
  the run is the run without a log file after the warning; the simplified variant does
  not catch the error: loading fails with it, the run sends nothing and the process ends
  with status 1.
\<close>

theorem load_log_fallback:
  "loadSentLog (Content l) = ([], l)
   \<and> loadSentLog Missing = ([], empty_log)
   \<and> loadSentLog (Malformed m) = ([Warn (''Could not load sent log: '' @ m)], empty_log)
   \<and> sendBulkEmails_ext e (Content cs) (Malformed m)
       = (Warn (''Could not load sent log: '' @ m) # fst (sendBulkEmails_ext e (Content cs) Missing),
          snd (sendBulkEmails_ext e (Content cs) Missing))
   \<and> loadLog (Content l) = Inr l
   \<and> loadLog Missing = Inr empty_log
   \<and> loadLog (Malformed m) = Inl (Error m)
   \<and> sendBulkEmails e (Content cs) (Malformed m) = Inl (Error m)
   \<and> main [] e (Content cs) (Malformed m) = ([Uncaught (Error m)], 1)"
  by (simp add: loadSentLog_def loadLog_def sendBulkEmails_ext_def sendBulkEmails_def main_def
      Let_def split: prod.splits)

theorem load_log_fallback_witness:
  "loadSentLog (Malformed ''Unexpected end of JSON input'')
     = ([Warn ''Could not load sent log: Unexpected end of JSON input''], empty_log)
   \<and> recipients (fst (sendBulkEmails_ext env_ok (Content [contact1])
                        (Malformed ''Unexpected end of JSON input'')))
       = [Str ''hr@one.com'']
   \<and> sendBulkEmails env_ok (Content [contact1]) (Malformed ''Unexpected end of JSON input'')
       = Inl (Error ''Unexpected end of JSON input'')"
proof -
  have "recipients (fst (sendBulkEmails_ext env_ok (Content [contact1]) Missing)) = [Str ''hr@one.com'']"
    by (simp add: run_ext_defs input_defs compose_defs)
  with load_log_fallback [of undefined "''Unexpected end of JSON input''" env_ok "[contact1]"]
  show ?thesis by simp
qed

text \<open>
  The claim as stated fails on the simplified variant: a log file that does not parse
  does not give the empty log, it ends the process.
\<close>

theorem load_log_fallback_counterexample:
  "loadLog (Malformed ''Unexpected end of JSON input'') \<noteq> Inr empty_log
   \<and> main [] env_ok (Content [contact1]) (Malformed ''Unexpected end of JSON input'')
       = ([Uncaught (Error ''Unexpected end of JSON input'')], 1)"
  by (simp add: loadLog_def main_def sendBulkEmails_def)

subsection \<open>Credentials and the help flag\<close>

lemma arg_help_parseArgs_loop:
  "arg_help (parseArgs_loop argv res) \<longleftrightarrow> arg_help res \<or> ''--help'' \<in> set argv \<or> ''-h'' \<in> set argv"
  by (induction argv arbitrary: res) auto

lemma arg_help_parseArgs:
  "arg_help (parseArgs argv) \<longleftrightarrow> ''--help'' \<in> set argv \<or> ''-h'' \<in> set argv"
  by (simp add: parseArgs_def arg_help_parseArgs_loop)

lemma createTransport_ext_missing:
  "\<not> truthy (GMAIL_USER e) \<or> \<not> truthy (GMAIL_APP_PASSWORD e)
     \<Longrightarrow> createTransport_ext e = Inl (Error missing_credentials)"
  by (auto simp: createTransport_ext_def Let_def)

lemma sendEmail_ext_missing:
  assumes "\<not> truthy (GMAIL_USER e) \<or> \<not> truthy (GMAIL_APP_PASSWORD e)"
  shows "sendEmail_ext e i r (Str f) cn = ([], Some (Error missing_credentials))"
  using createTransport_ext_missing [OF assms]
  by (simp add: sendEmail_ext_def createPersonalizedEmail_def clean_name_ext_def)

text \<open>
  Claim C4, as amended. In the extended variant, constructing the transport with either
  credential variable unset or empty throws an error with a fixed message, each time it
  is constructed; with both set it succeeds. In a bulk run the loop catches that error:
  the contact (with a string as founder name) is logged as failed with that message, no
  transport call is made, and the loop goes on. Sending a single email ends the process
  with status 1. The simplified variant checks nothing: it makes the transport call
  whatever the credentials are. In both variants the help flag prints the usage and ends
  with status 0 whatever the environment is.
\<close>

theorem missing_credentials_error:
  "(\<not> truthy (GMAIL_USER e) \<or> \<not> truthy (GMAIL_APP_PASSWORD e) \<longrightarrow>
      createTransport_ext e = Inl (Error missing_credentials)
      \<and> (founderName c = Str f \<longrightarrow>
           attempt_ext e n i c st
             = (st\<lparr> st_log := (st_log st)\<lparr> failed := failed (st_log st) @
                        [\<lparr> entry_email = email c, entry_companyName = companyName c,
                           entry_timestamp = now e i, entry_status = Str ''failed'',
                           entry_error = Str missing_credentials \<rparr>] \<rparr>,
                    failCount := failCount st + 1 \<rparr>,
                [ConsoleError (''Failed: '' @ missing_credentials),
                 WriteLog ((st_log st)\<lparr> failed := failed (st_log st) @
                        [\<lparr> entry_email = email c, entry_companyName = companyName c,
                           entry_timestamp = now e i, entry_status = Str ''failed'',
                           entry_error = Str missing_credentials \<rparr>] \<rparr>)]
                @ (if i < n - 1 then [Sleep DELAY_BETWEEN_EMAILS] else [])))
      \<and> sendSingleEmail e r cn f
           = ([ConsoleError (''Failed to send: '' @ missing_credentials)], 1))
   \<and> (truthy (GMAIL_USER e) \<and> truthy (GMAIL_APP_PASSWORD e) \<longrightarrow>
        (\<exists>t. createTransport_ext e = Inr t))
   \<and> recipients (fst (sendEmail e i r fn cn')) = [r]
   \<and> (''--help'' \<in> set argv \<or> ''-h'' \<in> set argv \<longrightarrow>
        main_ext argv e cj lf = ([Usage], 0) \<and> main argv e cj lf = ([Usage], 0))"
proof (intro conjI impI)
  assume m: "\<not> truthy (GMAIL_USER e) \<or> \<not> truthy (GMAIL_APP_PASSWORD e)"
  show "createTransport_ext e = Inl (Error missing_credentials)"
    by (rule createTransport_ext_missing [OF m])
  show "sendSingleEmail e r cn f = ([ConsoleError (''Failed to send: '' @ missing_credentials)], 1)"
    by (simp add: sendSingleEmail_def sendEmail_ext_missing [OF m])
  assume "founderName c = Str f"
  then show "attempt_ext e n i c st
             = (st\<lparr> st_log := (st_log st)\<lparr> failed := failed (st_log st) @
                        [\<lparr> entry_email = email c, entry_companyName = companyName c,
                           entry_timestamp = now e i, entry_status = Str ''failed'',
                           entry_error = Str missing_credentials \<rparr>] \<rparr>,
                    failCount := failCount st + 1 \<rparr>,
                [ConsoleError (''Failed: '' @ missing_credentials),
                 WriteLog ((st_log st)\<lparr> failed := failed (st_log st) @
                        [\<lparr> entry_email = email c, entry_companyName = companyName c,
                           entry_timestamp = now e i, entry_status = Str ''failed'',
                           entry_error = Str missing_credentials \<rparr>] \<rparr>)]
                @ (if i < n - 1 then [Sleep DELAY_BETWEEN_EMAILS] else []))"
    by (simp add: attempt_ext_def sendEmail_ext_missing [OF m] addToLog_def Let_def)
next
  assume "truthy (GMAIL_USER e) \<and> truthy (GMAIL_APP_PASSWORD e)"
  then show "\<exists>t. createTransport_ext e = Inr t"
    by (simp add: createTransport_ext_def Let_def)
next
  show "recipients (fst (sendEmail e i r fn cn')) = [r]"
    by (simp add: sendEmail_def Let_def)
next
  assume h: "''--help'' \<in> set argv \<or> ''-h'' \<in> set argv"
  then show "main_ext argv e cj lf = ([Usage], 0)"
    by (simp add: main_ext_def arg_help_parseArgs Let_def)
  from h show "main argv e cj lf = ([Usage], 0)"
    by (auto simp: main_def)
qed

theorem missing_credentials_error_witness:
  "\<not> truthy (GMAIL_USER env_nocreds)
   \<and> createTransport_ext env_nocreds = Inl (Error missing_credentials)
   \<and> sendSingleEmail env_nocreds (Str ''hr@one.com'') ''One'' ''Ann''
       = ([ConsoleError (''Failed to send: '' @ missing_credentials)], 1)
   \<and> (truthy (GMAIL_USER env_ok) \<and> truthy (GMAIL_APP_PASSWORD env_ok))
   \<and> (\<exists>t. createTransport_ext env_ok = Inr t)
   \<and> ''--help'' \<in> set [''--help'']
   \<and> main_ext [''--help''] env_nocreds Missing Missing = ([Usage], 0)
   \<and> main [''--help''] env_nocreds Missing Missing = ([Usage], 0)"
proof -
  have a: "\<not> truthy (GMAIL_USER env_nocreds)"
    by (simp add: env_nocreds_def env_ok_def)
  have b: "truthy (GMAIL_USER env_ok) \<and> truthy (GMAIL_APP_PASSWORD env_ok)"
    by (simp add: env_ok_def)
  have c: "''--help'' \<in> set [''--help'']" by simp
  from a c b
    missing_credentials_error [where e = env_nocreds and r = "Str ''hr@one.com''" and cn = "''One''"
      and f = "''Ann''" and argv = "[''--help'']" and cj = Missing and lf = Missing]
    missing_credentials_error [where e = env_ok]
  show ?thesis by blast
qed

text \<open>
  The claim as stated fails: without credentials a bulk run of the extended variant
  goes through both contacts and ends with status 0 and a summary of two failures, and
  so does a bulk run of the simplified variant, which makes both transport calls.
\<close>

theorem missing_credentials_error_counterexample:
  "(case main_ext [] env_nocreds (Content [contact1, contact2]) Missing of
      (evs, status) \<Rightarrow> (recipients evs, last evs, status))
     = ([], Summary 0 2 (Some LOG_FILE), 0)
   \<and> (case main [] env_nocreds (Content [contact1, contact2]) Missing of
      (evs, status) \<Rightarrow> (recipients evs, last evs, status))
     = ([Str ''hr@one.com'', Str ''hr@two.com''], Summary 0 2 None, 0)"
  by (simp add: main_ext_def main_def parseArgs_def run_ext_defs run_defs input_defs
      trim_def replace_honorific_def honorifics_def canon_def is_space_def)

subsection \<open>The two field-naming schemes\<close>

lemma attempt_cong:
  "same_resolved c c' \<Longrightarrow> attempt e n i c l = attempt e n i c' l"
  by (simp add: attempt_def same_resolved_def)

lemma bulk_loop_cong:
  "list_all2 same_resolved cs cs' \<Longrightarrow> bulk_loop e n i cs l = bulk_loop e n i cs' l"
proof (induction cs cs' arbitrary: i l rule: list_all2_induct)
  case Nil
  show ?case by simp
next
  case (Cons c cs c' cs')
  then show ?case by (simp add: attempt_cong [of c c'])
qed

lemma toSend_cong:
  "list_all2 same_resolved cs cs' \<Longrightarrow> list_all2 same_resolved (toSend l cs) (toSend l cs')"
proof (induction cs cs' rule: list_all2_induct)
  case Nil
  show ?case by (simp add: toSend_def)
next
  case (Cons c cs c' cs')
  then show ?case by (simp add: toSend_def same_resolved_def Let_def)
qed

lemma sendBulkEmails_cong:
  assumes "list_all2 same_resolved cs cs'"
  shows "sendBulkEmails e (Content cs) lf = sendBulkEmails e (Content cs') lf"
proof (cases "loadLog lf")
  case (Inl err)
  then show ?thesis by (simp add: sendBulkEmails_def)
next
  case (Inr l)
  have t: "list_all2 same_resolved (toSend l cs) (toSend l cs')"
    by (rule toSend_cong [OF assms])
  have "length (toSend l cs) = length (toSend l cs')"
    by (rule list_all2_lengthD [OF t])
  with bulk_loop_cong [OF t] Inr show ?thesis
    by (simp add: sendBulkEmails_def Let_def)
qed

lemma same_resolved_refl: "list_all2 same_resolved xs xs"
  by (simp add: list_all2_refl same_resolved_def)

lemma native_alt: "same_resolved rec_native rec_alt"
  by (simp add: same_resolved_def resolved_email_def resolved_companyName_def
      resolved_founderName_def js_or_def rec_native_def rec_alt_def no_company_def)

text \<open>
  Claim C2, as amended. The simplified variant takes the email from the first non-empty
  of \<open>email\<close> and \<open>EntrepriseContactEmail\<close>, the company name from \<open>companyName\<close> and
  \<open>EntrepriseName\<close>, the founder name from \<open>founderName\<close> and \<open>EntrepriseContactName\<close>.
  Two records on which these three values agree can replace each other in a contact list
  without changing the run: the same contacts pass the filter, the same messages are
  sent, the same log is written. The two records of the example are such a pair.
\<close>

theorem field_scheme_equivalence:
  "resolved_email c = (if truthy (email c) then email c else EntrepriseContactEmail c)
   \<and> resolved_companyName c = (if truthy (companyName c) then companyName c else EntrepriseName c)
   \<and> resolved_founderName c
       = (if truthy (founderName c) then founderName c else EntrepriseContactName c)
   \<and> (same_resolved c c' \<longrightarrow>
        sendBulkEmails e (Content (xs @ c # ys)) lf = sendBulkEmails e (Content (xs @ c' # ys)) lf)
   \<and> same_resolved rec_native rec_alt
   \<and> (toSend l [rec_native] = [rec_native]) = (toSend l [rec_alt] = [rec_alt])
   \<and> createEmail (resolved_founderName rec_native) (resolved_companyName rec_native)
       = createEmail (resolved_founderName rec_alt) (resolved_companyName rec_alt)
   \<and> attempt e n i rec_native l = attempt e n i rec_alt l
   \<and> sendBulkEmails e (Content (xs @ rec_native # ys)) lf
       = sendBulkEmails e (Content (xs @ rec_alt # ys)) lf"
proof -
  have r: "\<And>c c'. same_resolved c c' \<Longrightarrow>
        sendBulkEmails e (Content (xs @ c # ys)) lf = sendBulkEmails e (Content (xs @ c' # ys)) lf"
    by (rule sendBulkEmails_cong) (simp add: list_all2_appendI same_resolved_refl)
  have f: "(toSend l [rec_native] = [rec_native]) = (toSend l [rec_alt] = [rec_alt])"
    using native_alt by (simp add: toSend_def same_resolved_def Let_def)
  have m: "createEmail (resolved_founderName rec_native) (resolved_companyName rec_native)
       = createEmail (resolved_founderName rec_alt) (resolved_companyName rec_alt)"
    using native_alt by (simp add: same_resolved_def)
  show ?thesis
    using r [of c c'] r [OF native_alt] native_alt f m attempt_cong [OF native_alt]
    by (simp add: resolved_email_def resolved_companyName_def resolved_founderName_def js_or_def)
qed

theorem field_scheme_equivalence_witness:
  "same_resolved rec_native rec_alt
   \<and> sendBulkEmails env_ok (Content [contact1, rec_native]) Missing
       = sendBulkEmails env_ok (Content [contact1, rec_alt]) Missing
   \<and> recipients (snd (attempt env_ok 1 0 rec_alt empty_log)) = [Str ''a@b.com'']"
proof -
  have "recipients (snd (attempt env_ok 1 0 rec_native empty_log)) = [Str ''a@b.com'']"
    by (simp add: run_defs input_defs)
  with field_scheme_equivalence [where c = rec_native and c' = rec_alt and e = env_ok
      and xs = "[contact1]" and ys = "[]" and lf = Missing and n = 1 and i = 0 and l = empty_log]
  show ?thesis by simp
qed

text \<open>
  The claim as stated fails on the extended variant, which reads the native field names
  only: the record in the alternate scheme does not pass its filter and is never mailed.
\<close>

theorem field_scheme_equivalence_counterexample:
  "toSend_ext empty_log [rec_native] = [rec_native] \<and> toSend_ext empty_log [rec_alt] = []
   \<and> recipients (fst (sendBulkEmails_ext env_ok (Content [rec_native]) Missing)) = [Str ''a@b.com'']
   \<and> recipients (fst (sendBulkEmails_ext env_ok (Content [rec_alt]) Missing)) = []"
  by (simp add: run_ext_defs input_defs trim_def replace_honorific_def honorifics_def canon_def
      is_space_def)

subsection \<open>Pacing\<close>

lemma filter_is_Sleep_sendEmail_ext:
  "filter is_Sleep (fst (sendEmail_ext e i r f cn)) = []"
  by (simp add: sendEmail_ext_def Let_def split: sum.splits)

lemma attempt_ext_sleeps:
  "filter is_Sleep (snd (attempt_ext e n i c st))
     = (if i < n - 1 then [Sleep DELAY_BETWEEN_EMAILS] else [])"
  using filter_is_Sleep_sendEmail_ext [of e i "email c" "founderName c" "companyName c"]
  by (auto simp: attempt_ext_def addToLog_def Let_def split: prod.splits option.splits)

text \<open>The extended loop sleeps once after every attempt but the last, whatever the outcomes.\<close>

lemma bulk_loop_ext_sleeps:
  "i + length cs = n \<Longrightarrow>
     filter is_Sleep (snd (bulk_loop_ext e n i cs st))
       = replicate (length cs - 1) (Sleep DELAY_BETWEEN_EMAILS)"
proof (induction cs arbitrary: i st)
  case Nil
  show ?case by simp
next
  case (Cons c cs)
  obtain s1 ev1 where a: "attempt_ext e n i c st = (s1, ev1)" by (cases "attempt_ext e n i c st")
  obtain s2 ev2 where b: "bulk_loop_ext e n (Suc i) cs s1 = (s2, ev2)"
    by (cases "bulk_loop_ext e n (Suc i) cs s1")
  from Cons.prems have n: "Suc i + length cs = n" by simp
  have ih: "filter is_Sleep ev2 = replicate (length cs - 1) (Sleep DELAY_BETWEEN_EMAILS)"
    using Cons.IH [OF n, of s1] b by simp
  have s: "filter is_Sleep ev1 = (if i < n - 1 then [Sleep DELAY_BETWEEN_EMAILS] else [])"
    using attempt_ext_sleeps [of e n i c st] a by simp
  show ?case
  proof (cases cs)
    case Nil
    with a b s ih Cons.prems show ?thesis by simp
  next
    case (Cons d ds)
    with a b s ih n show ?thesis by simp
  qed
qed

lemma extended_delay_after_failure:
  "(case sendBulkEmails_ext env_fail_first (Content [contact1, contact2]) Missing of
      (evs, res) \<Rightarrow> (recipients evs, filter is_Sleep evs))
   = ([Str ''hr@one.com'', Str ''hr@two.com''], [Sleep 60000])"
  by (simp add: run_ext_defs input_defs trim_def replace_honorific_def honorifics_def canon_def
      is_space_def)

text \<open>
  Claim C3 fails on the simplified variant, where the delay is part of the \<^verbatim>\<open>try\<close> block
  only: with two contacts and the first delivery rejected, the run makes both transport
  calls and never sleeps.
\<close>

theorem simplified_no_delay_after_failure:
  "(case sendBulkEmails env_fail_first (Content [contact1, contact2]) Missing of
      Inr (l, evs) \<Rightarrow>
        (recipients evs, filter is_Sleep evs, map entry_email (failed l), map entry_email (sent l))
    | Inl _ \<Rightarrow> ([], [], [], []))
   = ([Str ''hr@one.com'', Str ''hr@two.com''], [], [Str ''hr@one.com''], [Str ''hr@two.com''])"
  by (simp add: run_defs input_defs)

subsection \<open>Durability\<close>

text \<open>In both variants the log file holds the current log when an iteration ends.\<close>

lemma attempt_persists:
  "disk_after d (snd (attempt e n i c l)) = Content (fst (attempt e n i c l))"
  by (simp add: attempt_def sendEmail_def sleep_def Let_def disk_after_append
      split: option.splits)

lemma disk_after_sendEmail_ext: "disk_after d (fst (sendEmail_ext e i r f cn)) = d"
  by (simp add: sendEmail_ext_def Let_def split: sum.splits)

lemma attempt_ext_persists:
  "disk_after d (snd (attempt_ext e n i c st)) = Content (st_log (fst (attempt_ext e n i c st)))"
  using disk_after_sendEmail_ext [of d e i "email c" "founderName c" "companyName c"]
  by (auto simp: attempt_ext_def addToLog_def Let_def disk_after_append
      split: prod.splits option.splits)

text \<open>
  In the extended variant the write comes before the delay: the events of an iteration
  are a part that ends with the log on disk, then the delay if there is one.
\<close>

lemma attempt_ext_write_before_sleep:
  "\<exists>pre. snd (attempt_ext e n i c st)
            = pre @ (if i < n - 1 then [Sleep DELAY_BETWEEN_EMAILS] else [])
      \<and> filter is_Sleep pre = []
      \<and> disk_after d pre = Content (st_log (fst (attempt_ext e n i c st)))"
proof (cases "snd (sendEmail_ext e i (email c) (founderName c) (companyName c))")
  case None
  obtain evs res where s: "sendEmail_ext e i (email c) (founderName c) (companyName c) = (evs, res)"
    by (cases "sendEmail_ext e i (email c) (founderName c) (companyName c)")
  with None have r: "res = None" by simp
  show ?thesis
    using filter_is_Sleep_sendEmail_ext [of e i "email c" "founderName c" "companyName c"]
      disk_after_sendEmail_ext [of d e i "email c" "founderName c" "companyName c"] s r
    by (intro exI [of _ "evs @ snd (addToLog e i (st_log st) (email c) (companyName c) ''success'' None)"])
      (simp add: attempt_ext_def addToLog_def Let_def disk_after_append)
next
  case (Some err)
  obtain evs res where s: "sendEmail_ext e i (email c) (founderName c) (companyName c) = (evs, res)"
    by (cases "sendEmail_ext e i (email c) (founderName c) (companyName c)")
  with Some have r: "res = Some err" by simp
  show ?thesis
    using filter_is_Sleep_sendEmail_ext [of e i "email c" "founderName c" "companyName c"]
      disk_after_sendEmail_ext [of d e i "email c" "founderName c" "companyName c"] s r
    by (intro exI [of _ "evs @ [ConsoleError (''Failed: '' @ message err)]
          @ snd (addToLog e i (st_log st) (email c) (companyName c) ''failed'' (Some err))"])
      (simp add: attempt_ext_def addToLog_def Let_def disk_after_append)
qed

text \<open>
  Claim C1 fails on the simplified variant, where \<^verbatim>\<open>saveLog\<close> follows the delay: with two
  contacts and every delivery accepted, the first two events are the transport call for
  the first contact and the full delay, and after them there is still no log file. The
  third event writes the log with the first contact's entry, the fourth is the transport
  call for the second contact.
\<close>

theorem simplified_delay_before_save:
  "(case sendBulkEmails env_ok (Content [contact1, contact2]) Missing of
      Inr (l, evs) \<Rightarrow>
        (map is_SendMail (take 2 evs), map is_Sleep (take 2 evs), recipients (take 2 evs),
         disk_after Missing (take 2 evs), recipients (take 4 evs),
         map_option (map entry_email \<circ> sent)
           (case disk_after Missing (take 3 evs) of Content d \<Rightarrow> Some d | _ \<Rightarrow> None))
    | Inl _ \<Rightarrow> ([], [], [], Missing, [], None))
   = ([True, False], [False, True], [Str ''hr@one.com''], Missing,
      [Str ''hr@one.com'', Str ''hr@two.com''], Some [Str ''hr@one.com''])"
  by (simp add: run_defs input_defs)

subsection \<open>The loops against the account of a run\<close>

lemma indexed_Nil [simp]: "indexed i [] = []"
  by (simp add: indexed_def)

lemma indexed_Cons [simp]: "indexed i (c # cs) = (i, c) # indexed (Suc i) cs"
  by (simp add: indexed_def upt_conv_Cons del: upt_Suc)

lemma length_indexed [simp]: "length (indexed i cs) = length cs"
  by (simp add: indexed_def)

lemma mails_append: "mails (xs @ ys) = mails xs @ mails ys"
  by (induction xs rule: mails.induct) simp_all

lemma attempt_fst:
  "fst (attempt e n i c l)
     = l\<lparr> sent := sent l @ new_sent e [(i, c)], failed := failed l @ new_failed e [(i, c)] \<rparr>"
  by (simp add: attempt_def sendEmail_def Let_def new_sent_def new_failed_def
      delivery_def the_mail_def sent_entry_def failed_entry_def split: option.splits)

lemma attempt_mails: "mails (snd (attempt e n i c l)) = [the_mail e c]"
  by (simp add: attempt_def sendEmail_def Let_def sleep_def the_mail_def mails_append
      split: option.splits)

lemma new_sent_Cons: "new_sent e [x] @ new_sent e xs = new_sent e (x # xs)"
  by (simp add: new_sent_def)

lemma new_failed_Cons: "new_failed e [x] @ new_failed e xs = new_failed e (x # xs)"
  by (simp add: new_failed_def)

lemma bulk_loop_Cons:
  "fst (bulk_loop e n i (c # cs) l) = fst (bulk_loop e n (Suc i) cs (fst (attempt e n i c l)))"
  "snd (bulk_loop e n i (c # cs) l)
     = snd (attempt e n i c l) @ snd (bulk_loop e n (Suc i) cs (fst (attempt e n i c l)))"
  by (simp_all add: case_prod_beta)

lemma bulk_loop_exact:
  "fst (bulk_loop e n i cs l)
     = l\<lparr> sent := sent l @ new_sent e (indexed i cs),
          failed := failed l @ new_failed e (indexed i cs) \<rparr>
   \<and> mails (snd (bulk_loop e n i cs l)) = map (the_mail e) cs"
proof (induction cs arbitrary: i l)
  case Nil
  show ?case by (simp add: new_sent_def new_failed_def)
next
  case (Cons c cs)
  show ?case
    by (simp add: bulk_loop_Cons Cons.IH attempt_fst attempt_mails mails_append
        new_sent_Cons new_failed_Cons del: bulk_loop.simps)
qed


lemma new_sent_append: "new_sent e (xs @ ys) = new_sent e xs @ new_sent e ys"
  by (simp add: new_sent_def)

lemma new_failed_append: "new_failed e (xs @ ys) = new_failed e xs @ new_failed e ys"
  by (simp add: new_failed_def)



lemma new_sent_ext_Cons: "new_sent_ext e [x] @ new_sent_ext e xs = new_sent_ext e (x # xs)"
  by (simp add: new_sent_ext_def)

lemma new_failed_ext_Cons: "new_failed_ext e [x] @ new_failed_ext e xs = new_failed_ext e (x # xs)"
  by (simp add: new_failed_ext_def)

lemma length_new_sent:
  "length (new_sent e ics) = length (filter (\<lambda>(i, c). delivery e i c = None) ics)"
  by (induction ics) (auto simp: new_sent_def split: option.splits)

lemma length_new_failed:
  "length (new_failed e ics) = length (filter (\<lambda>(i, c). delivery e i c \<noteq> None) ics)"
  by (induction ics) (auto simp: new_failed_def split: option.splits)

lemma length_new_sent_ext:
  "length (new_sent_ext e ics) = length (filter (\<lambda>(i, c). delivery_ext e i c = None) ics)"
  by (induction ics) (auto simp: new_sent_ext_def split: option.splits)

lemma length_new_failed_ext:
  "length (new_failed_ext e ics) = length (filter (\<lambda>(i, c). delivery_ext e i c \<noteq> None) ics)"
  by (induction ics) (auto simp: new_failed_ext_def split: option.splits)

lemma sendEmail_ext_exact:
  "snd (sendEmail_ext e i (email c) (founderName c) (companyName c)) = delivery_ext e i c"
  "mails (fst (sendEmail_ext e i (email c) (founderName c) (companyName c))) = transport_calls_ext e c"
  by (simp_all add: sendEmail_ext_def delivery_ext_def transport_calls_ext_def the_mail_ext_def
      Let_def mails_append split: sum.splits)

lemma attempt_ext_fst:
  "fst (attempt_ext e n i c st)
     = st\<lparr> st_log := (st_log st)\<lparr> sent := sent (st_log st) @ new_sent_ext e [(i, c)],
                                   failed := failed (st_log st) @ new_failed_ext e [(i, c)] \<rparr>,
           successCount := successCount st + length (new_sent_ext e [(i, c)]),
           failCount := failCount st + length (new_failed_ext e [(i, c)]) \<rparr>"
  using sendEmail_ext_exact(1) [of e i c]
  by (cases "sendEmail_ext e i (email c) (founderName c) (companyName c)")
    (auto simp: attempt_ext_def addToLog_def Let_def new_sent_ext_def new_failed_ext_def
      sent_entry_ext_def failed_entry_ext_def split: option.splits)

lemma attempt_ext_mails: "mails (snd (attempt_ext e n i c st)) = transport_calls_ext e c"
  using sendEmail_ext_exact(2) [of e i c]
  by (cases "sendEmail_ext e i (email c) (founderName c) (companyName c)")
    (auto simp: attempt_ext_def addToLog_def Let_def mails_append split: option.splits)

lemma bulk_loop_ext_Cons:
  "fst (bulk_loop_ext e n i (c # cs) st)
     = fst (bulk_loop_ext e n (Suc i) cs (fst (attempt_ext e n i c st)))"
  "snd (bulk_loop_ext e n i (c # cs) st)
     = snd (attempt_ext e n i c st) @ snd (bulk_loop_ext e n (Suc i) cs (fst (attempt_ext e n i c st)))"
  by (simp_all add: case_prod_beta)

lemma bulk_loop_ext_exact:
  "fst (bulk_loop_ext e n i cs st)
     = st\<lparr> st_log := (st_log st)\<lparr> sent := sent (st_log st) @ new_sent_ext e (indexed i cs),
                                   failed := failed (st_log st) @ new_failed_ext e (indexed i cs) \<rparr>,
           successCount := successCount st + length (new_sent_ext e (indexed i cs)),
           failCount := failCount st + length (new_failed_ext e (indexed i cs)) \<rparr>
   \<and> mails (snd (bulk_loop_ext e n i cs st)) = concat (map (transport_calls_ext e) cs)"
proof (induction cs arbitrary: i st)
  case Nil
  show ?case by (simp add: new_sent_ext_def new_failed_ext_def)
next
  case (Cons c cs)
  have l: "length (new_sent_ext e ((i, c) # indexed (Suc i) cs))
             = length (new_sent_ext e [(i, c)]) + length (new_sent_ext e (indexed (Suc i) cs))"
    "length (new_failed_ext e ((i, c) # indexed (Suc i) cs))
             = length (new_failed_ext e [(i, c)]) + length (new_failed_ext e (indexed (Suc i) cs))"
    by (simp_all add: new_sent_ext_def new_failed_ext_def)
  show ?case
    by (simp add: bulk_loop_ext_Cons Cons.IH attempt_ext_fst attempt_ext_mails mails_append
        new_sent_ext_Cons new_failed_ext_Cons l del: bulk_loop_ext.simps)
qed

text \<open>Whole runs of the two variants.\<close>

lemma sendBulkEmails_run:
  assumes "loadLog lf = Inr l0"
  shows "sendBulkEmails e (Content companies) lf
     = Inr (l0\<lparr> sent := sent l0 @ new_sent e (indexed 0 (toSend l0 companies)),
               failed := failed l0 @ new_failed e (indexed 0 (toSend l0 companies)) \<rparr>,
            snd (bulk_loop e (length (toSend l0 companies)) 0 (toSend l0 companies) l0)
              @ [Summary (length (sent l0) + length (new_sent e (indexed 0 (toSend l0 companies))))
                   (length (failed l0) + length (new_failed e (indexed 0 (toSend l0 companies))))
                   None])"
  using bulk_loop_exact [of e "length (toSend l0 companies)" 0 "toSend l0 companies" l0] assms
  by (simp add: sendBulkEmails_def Let_def case_prod_beta)

lemma sendBulkEmails_ext_run:
  assumes "toSend_ext (snd (loadSentLog lf)) companies \<noteq> []"
  shows "sendBulkEmails_ext e (Content companies) lf
     = (fst (loadSentLog lf)
          @ snd (bulk_loop_ext e (length (toSend_ext (snd (loadSentLog lf)) companies)) 0
                   (toSend_ext (snd (loadSentLog lf)) companies)
                   \<lparr> st_log = snd (loadSentLog lf), successCount = 0, failCount = 0 \<rparr>)
          @ [Summary (length (new_sent_ext e (indexed 0 (toSend_ext (snd (loadSentLog lf)) companies))))
               (length (new_failed_ext e (indexed 0 (toSend_ext (snd (loadSentLog lf)) companies))))
               (Some LOG_FILE)],
        Done \<lparr> st_log = (snd (loadSentLog lf))
                  \<lparr> sent := sent (snd (loadSentLog lf))
                       @ new_sent_ext e (indexed 0 (toSend_ext (snd (loadSentLog lf)) companies)),
                    failed := failed (snd (loadSentLog lf))
                       @ new_failed_ext e (indexed 0 (toSend_ext (snd (loadSentLog lf)) companies)) \<rparr>,
                successCount = length (new_sent_ext e (indexed 0 (toSend_ext (snd (loadSentLog lf)) companies))),
                failCount = length (new_failed_ext e (indexed 0 (toSend_ext (snd (loadSentLog lf)) companies))) \<rparr>)"
  using bulk_loop_ext_exact [of e "length (toSend_ext (snd (loadSentLog lf)) companies)" 0
      "toSend_ext (snd (loadSentLog lf)) companies"
      "\<lparr> st_log = snd (loadSentLog lf), successCount = 0, failCount = 0 \<rparr>"] assms
  by (simp add: sendBulkEmails_ext_def Let_def case_prod_beta)

lemma mails_Summary [simp]: "mails (evs @ [Summary a b p]) = mails evs"
  by (simp add: mails_append)

lemma mails_loadSentLog [simp]: "mails (fst (loadSentLog lf) @ evs) = mails evs"
  by (cases lf) (simp_all add: loadSentLog_def)

lemma filter_split_length:
  "length (filter (\<lambda>(i, c). P i c) ics) + length (filter (\<lambda>(i, c). \<not> P i c) ics) = length ics"
  by (induction ics) auto


subsection \<open>The entries a run appends\<close>

text \<open>
  Claim C6, as amended. A run of the extended variant with at least one contact left to
  send to appends, in the order of the contacts, one entry to \<open>sent\<close> for each contact
  whose attempt succeeded and one entry to \<open>failed\<close> for each contact whose attempt
  failed, and nothing else. Each entry has the email and the company name of its contact
  and the reading of the clock in its iteration as timestamp; an entry of \<open>sent\<close> has
  the status \<open>success\<close> and the error \<open>null\<close>, an entry of \<open>failed\<close> the status
  \<open>failed\<close> and the message of the error of its attempt. A run of the simplified variant
  appends likewise, with the resolved email and company name, no status field, no error
  field in \<open>sent\<close> and the message of the error of its attempt in \<open>failed\<close>.
\<close>

theorem log_entry_fields:
  "(toSend_ext (snd (loadSentLog lf)) companies \<noteq> [] \<longrightarrow>
      (\<exists>evs st. sendBulkEmails_ext e (Content companies) lf = (evs, Done st)
         \<and> sent (st_log st) = sent (snd (loadSentLog lf))
              @ new_sent_ext e (indexed 0 (toSend_ext (snd (loadSentLog lf)) companies))
         \<and> failed (st_log st) = failed (snd (loadSentLog lf))
              @ new_failed_ext e (indexed 0 (toSend_ext (snd (loadSentLog lf)) companies))))
   \<and> new_sent_ext e ((i, c) # ics)
       = (case delivery_ext e i c of
            None \<Rightarrow> [\<lparr> entry_email = email c, entry_companyName = companyName c,
                        entry_timestamp = now e i, entry_status = Str ''success'',
                        entry_error = Null \<rparr>]
          | Some err \<Rightarrow> []) @ new_sent_ext e ics
   \<and> new_failed_ext e ((i, c) # ics)
       = (case delivery_ext e i c of
            None \<Rightarrow> []
          | Some err \<Rightarrow> [\<lparr> entry_email = email c, entry_companyName = companyName c,
                            entry_timestamp = now e i, entry_status = Str ''failed'',
                            entry_error = Str (message err) \<rparr>]) @ new_failed_ext e ics
   \<and> new_sent_ext e [] = [] \<and> new_failed_ext e [] = []
   \<and> (loadLog lf' = Inr l0 \<longrightarrow>
      (\<exists>l' evs. sendBulkEmails e (Content companies) lf' = Inr (l', evs)
         \<and> sent l' = sent l0 @ new_sent e (indexed 0 (toSend l0 companies))
         \<and> failed l' = failed l0 @ new_failed e (indexed 0 (toSend l0 companies))))
   \<and> new_sent e ((i, c) # ics)
       = (case delivery e i c of
            None \<Rightarrow> [\<lparr> entry_email = resolved_email c, entry_companyName = resolved_companyName c,
                        entry_timestamp = now e i, entry_status = Undefined,
                        entry_error = Undefined \<rparr>]
          | Some err \<Rightarrow> []) @ new_sent e ics
   \<and> new_failed e ((i, c) # ics)
       = (case delivery e i c of
            None \<Rightarrow> []
          | Some err \<Rightarrow> [\<lparr> entry_email = resolved_email c,
                            entry_companyName = resolved_companyName c,
                            entry_timestamp = now e i, entry_status = Undefined,
                            entry_error = Str (message err) \<rparr>]) @ new_failed e ics
   \<and> new_sent e [] = [] \<and> new_failed e [] = []"
proof (intro conjI impI)
  assume "toSend_ext (snd (loadSentLog lf)) companies \<noteq> []"
  from sendBulkEmails_ext_run [OF this, of e]
  show "\<exists>evs st. sendBulkEmails_ext e (Content companies) lf = (evs, Done st)
         \<and> sent (st_log st) = sent (snd (loadSentLog lf))
              @ new_sent_ext e (indexed 0 (toSend_ext (snd (loadSentLog lf)) companies))
         \<and> failed (st_log st) = failed (snd (loadSentLog lf))
              @ new_failed_ext e (indexed 0 (toSend_ext (snd (loadSentLog lf)) companies))"
    by simp
next
  assume "loadLog lf' = Inr l0"
  from sendBulkEmails_run [OF this, of e companies]
  show "\<exists>l' evs. sendBulkEmails e (Content companies) lf' = Inr (l', evs)
         \<and> sent l' = sent l0 @ new_sent e (indexed 0 (toSend l0 companies))
         \<and> failed l' = failed l0 @ new_failed e (indexed 0 (toSend l0 companies))"
    by simp
qed (simp_all add: new_sent_def new_failed_def new_sent_ext_def new_failed_ext_def
      sent_entry_def failed_entry_def sent_entry_ext_def failed_entry_ext_def
      split: option.splits)

theorem log_entry_fields_witness:
  "toSend_ext (snd (loadSentLog Missing)) [contact1, contact2] = [contact1, contact2]
   \<and> (\<exists>evs st. sendBulkEmails_ext env_fail_first (Content [contact1, contact2]) Missing = (evs, Done st)
        \<and> sent (st_log st)
            = [\<lparr> entry_email = Str ''hr@two.com'', entry_companyName = Str ''Two'',
                 entry_timestamp = ''2026-01-13T12:01:00.000Z'', entry_status = Str ''success'',
                 entry_error = Null \<rparr>]
        \<and> failed (st_log st)
            = [\<lparr> entry_email = Str ''hr@one.com'', entry_companyName = Str ''One'',
                 entry_timestamp = ''2026-01-13T12:00:00.000Z'', entry_status = Str ''failed'',
                 entry_error = Str ''Invalid login'' \<rparr>])
   \<and> loadLog Missing = Inr empty_log
   \<and> (\<exists>l' evs. sendBulkEmails env_fail_first (Content [contact1, contact2]) Missing = Inr (l', evs)
        \<and> sent l'
            = [\<lparr> entry_email = Str ''hr@two.com'', entry_companyName = Str ''Two'',
                 entry_timestamp = ''2026-01-13T12:01:00.000Z'', entry_status = Undefined,
                 entry_error = Undefined \<rparr>]
        \<and> failed l'
            = [\<lparr> entry_email = Str ''hr@one.com'', entry_companyName = Str ''One'',
                 entry_timestamp = ''2026-01-13T12:00:00.000Z'', entry_status = Undefined,
                 entry_error = Str ''Invalid login'' \<rparr>])"
proof -
  have t: "toSend_ext (snd (loadSentLog Missing)) [contact1, contact2] = [contact1, contact2]"
    by (simp add: toSend_ext_def loadSentLog_def input_defs)
  have t': "toSend empty_log [contact1, contact2] = [contact1, contact2]"
    by (simp add: run_defs input_defs)
  have l: "loadLog Missing = Inr empty_log" by (simp add: loadLog_def)
  have x: "new_sent_ext env_fail_first (indexed 0 [contact1, contact2])
            = [\<lparr> entry_email = Str ''hr@two.com'', entry_companyName = Str ''Two'',
                 entry_timestamp = ''2026-01-13T12:01:00.000Z'', entry_status = Str ''success'',
                 entry_error = Null \<rparr>]"
    "new_failed_ext env_fail_first (indexed 0 [contact1, contact2])
            = [\<lparr> entry_email = Str ''hr@one.com'', entry_companyName = Str ''One'',
                 entry_timestamp = ''2026-01-13T12:00:00.000Z'', entry_status = Str ''failed'',
                 entry_error = Str ''Invalid login'' \<rparr>]"
    "new_sent env_fail_first (indexed 0 [contact1, contact2])
            = [\<lparr> entry_email = Str ''hr@two.com'', entry_companyName = Str ''Two'',
                 entry_timestamp = ''2026-01-13T12:01:00.000Z'', entry_status = Undefined,
                 entry_error = Undefined \<rparr>]"
    "new_failed env_fail_first (indexed 0 [contact1, contact2])
            = [\<lparr> entry_email = Str ''hr@one.com'', entry_companyName = Str ''One'',
                 entry_timestamp = ''2026-01-13T12:00:00.000Z'', entry_status = Undefined,
                 entry_error = Str ''Invalid login'' \<rparr>]"
    by (simp_all add: new_sent_ext_def new_failed_ext_def new_sent_def new_failed_def
        delivery_ext_def delivery_def sent_entry_ext_def failed_entry_ext_def sent_entry_def
        failed_entry_def createPersonalizedEmail_def clean_name_ext_def createTransport_ext_def
        resolved_email_def resolved_companyName_def js_or_def input_defs Let_def)
  have s: "snd (loadSentLog Missing) = empty_log" by (simp add: loadSentLog_def)
  from log_entry_fields [where e = env_fail_first and companies = "[contact1, contact2]"
      and lf = Missing and lf' = Missing and ?l0.0 = empty_log and i = 0 and c = contact1
      and ics = "[]"] t t' l x s
  show ?thesis by (simp add: empty_log_def)
qed

text \<open>
  The claim as stated fails on the simplified variant: after a run with one delivery
  rejected and one accepted, neither appended entry has a status field.
\<close>

theorem log_entry_fields_counterexample:
  "(case sendBulkEmails env_fail_first (Content [contact1, contact2]) Missing of
      Inr (l, evs) \<Rightarrow> (map entry_status (sent l), map entry_status (failed l))
    | Inl _ \<Rightarrow> ([], [])) = ([Undefined], [Undefined])"
  by (simp add: run_defs input_defs)

subsection \<open>The summary\<close>

text \<open>
  Claim C7, as amended. When at least one contact is left to send to, a run of the
  extended variant ends, after the transport calls of all contacts, with a summary that
  gives the number of contacts whose attempt succeeded in this run, the number of those
  whose attempt failed (together the number of contacts left to send to) and the path of
  the log file; its counters hold the same numbers. When no contact is left it prints a
  notice and no summary. A run of the simplified variant that could load the log ends,
  after the transport calls of all contacts, with a summary that gives the number of
  \<open>sent\<close> entries of the loaded log plus the accepted deliveries of this run, the number
  of \<open>failed\<close> entries of the loaded log plus the rejected ones, and no path. An attempt
  of the simplified variant succeeds when the transport accepts the message; an attempt of
  the extended variant succeeds when the founder name is a string, the transport can be
  constructed and the transport accepts the message.
\<close>

theorem summary_counts:
  "(toSend_ext (snd (loadSentLog lf)) companies \<noteq> [] \<longrightarrow>
      (\<exists>body st.
         sendBulkEmails_ext e (Content companies) lf
           = (fst (loadSentLog lf) @ body
                @ [Summary (length (filter (\<lambda>(i, c). delivery_ext e i c = None)
                                      (indexed 0 (toSend_ext (snd (loadSentLog lf)) companies))))
                     (length (filter (\<lambda>(i, c). delivery_ext e i c \<noteq> None)
                                      (indexed 0 (toSend_ext (snd (loadSentLog lf)) companies))))
                     (Some LOG_FILE)],
              Done st)
         \<and> mails body = concat (map (transport_calls_ext e) (toSend_ext (snd (loadSentLog lf)) companies))
         \<and> successCount st
             = length (filter (\<lambda>(i, c). delivery_ext e i c = None)
                         (indexed 0 (toSend_ext (snd (loadSentLog lf)) companies)))
         \<and> failCount st
             = length (filter (\<lambda>(i, c). delivery_ext e i c \<noteq> None)
                         (indexed 0 (toSend_ext (snd (loadSentLog lf)) companies)))
         \<and> successCount st + failCount st = length (toSend_ext (snd (loadSentLog lf)) companies)))
   \<and> (toSend_ext (snd (loadSentLog lf)) companies = [] \<longrightarrow>
        sendBulkEmails_ext e (Content companies) lf
          = (fst (loadSentLog lf) @ [NothingNew], NothingToSend))
   \<and> (loadLog lf' = Inr l0 \<longrightarrow>
      (\<exists>l' body.
         sendBulkEmails e (Content companies) lf'
           = Inr (l', body
                @ [Summary (length (sent l0)
                             + length (filter (\<lambda>(i, c). delivery e i c = None)
                                         (indexed 0 (toSend l0 companies))))
                     (length (failed l0)
                             + length (filter (\<lambda>(i, c). delivery e i c \<noteq> None)
                                         (indexed 0 (toSend l0 companies))))
                     None])
         \<and> mails body = map (the_mail e) (toSend l0 companies)))
   \<and> delivery e i c = sendMail e i (createTransport e) (the_mail e c)
   \<and> (founderName c = Str f \<and> createTransport_ext e = Inr t \<longrightarrow>
        delivery_ext e i c
          = sendMail e i t
              (the_mail_ext e c (greeting (Str (trim (replace_honorific f))) (companyName c)
                                  @ body_rest_ext))
        \<and> transport_calls_ext e c
          = [the_mail_ext e c (greeting (Str (trim (replace_honorific f))) (companyName c)
                                  @ body_rest_ext)])
   \<and> (createTransport_ext e = Inl err \<longrightarrow>
        delivery_ext e i c \<noteq> None \<and> transport_calls_ext e c = [])
   \<and> ((\<forall>s. founderName c \<noteq> Str s) \<longrightarrow>
        delivery_ext e i c \<noteq> None \<and> transport_calls_ext e c = [])"
proof (intro conjI impI)
  let ?ts = "toSend_ext (snd (loadSentLog lf)) companies"
  assume ne: "?ts \<noteq> []"
  let ?body = "snd (bulk_loop_ext e (length ?ts) 0 ?ts
                 \<lparr> st_log = snd (loadSentLog lf), successCount = 0, failCount = 0 \<rparr>)"
  have m: "mails ?body = concat (map (transport_calls_ext e) ?ts)"
    using bulk_loop_ext_exact [of e "length ?ts" 0 ?ts] by simp
  have n: "length (filter (\<lambda>(i, c). delivery_ext e i c = None) (indexed 0 ?ts))
         + length (filter (\<lambda>(i, c). delivery_ext e i c \<noteq> None) (indexed 0 ?ts)) = length ?ts"
    using filter_split_length [of "\<lambda>i c. delivery_ext e i c = None" "indexed 0 ?ts"] by simp
  from sendBulkEmails_ext_run [OF ne, of e] m n
  show "\<exists>body st.
         sendBulkEmails_ext e (Content companies) lf
           = (fst (loadSentLog lf) @ body
                @ [Summary (length (filter (\<lambda>(i, c). delivery_ext e i c = None) (indexed 0 ?ts)))
                     (length (filter (\<lambda>(i, c). delivery_ext e i c \<noteq> None) (indexed 0 ?ts)))
                     (Some LOG_FILE)],
              Done st)
         \<and> mails body = concat (map (transport_calls_ext e) ?ts)
         \<and> successCount st = length (filter (\<lambda>(i, c). delivery_ext e i c = None) (indexed 0 ?ts))
         \<and> failCount st = length (filter (\<lambda>(i, c). delivery_ext e i c \<noteq> None) (indexed 0 ?ts))
         \<and> successCount st + failCount st = length ?ts"
    by (intro exI [of _ ?body]) (simp add: length_new_sent_ext length_new_failed_ext)
next
  assume "toSend_ext (snd (loadSentLog lf)) companies = []"
  then show "sendBulkEmails_ext e (Content companies) lf
          = (fst (loadSentLog lf) @ [NothingNew], NothingToSend)"
    by (cases "loadSentLog lf") (simp add: sendBulkEmails_ext_def Let_def)
next
  let ?ts = "toSend l0 companies"
  assume l: "loadLog lf' = Inr l0"
  have m: "mails (snd (bulk_loop e (length ?ts) 0 ?ts l0)) = map (the_mail e) ?ts"
    using bulk_loop_exact [of e "length ?ts" 0 ?ts l0] by simp
  from sendBulkEmails_run [OF l, of e companies] m
  show "\<exists>l' body.
         sendBulkEmails e (Content companies) lf'
           = Inr (l', body
                @ [Summary (length (sent l0)
                             + length (filter (\<lambda>(i, c). delivery e i c = None) (indexed 0 ?ts)))
                     (length (failed l0)
                             + length (filter (\<lambda>(i, c). delivery e i c \<noteq> None) (indexed 0 ?ts)))
                     None])
         \<and> mails body = map (the_mail e) ?ts"
    by (simp add: length_new_sent length_new_failed)
next
  show "delivery e i c = sendMail e i (createTransport e) (the_mail e c)"
    by (simp add: delivery_def)
next
  assume a: "founderName c = Str f \<and> createTransport_ext e = Inr t"
  then show "delivery_ext e i c
          = sendMail e i t
              (the_mail_ext e c (greeting (Str (trim (replace_honorific f))) (companyName c)
                                  @ body_rest_ext))"
    by (simp add: delivery_ext_def createPersonalizedEmail_def clean_name_ext_def)
  from a show "transport_calls_ext e c
          = [the_mail_ext e c (greeting (Str (trim (replace_honorific f))) (companyName c)
                                  @ body_rest_ext)]"
    by (simp add: transport_calls_ext_def createPersonalizedEmail_def clean_name_ext_def)
next
  assume a: "createTransport_ext e = Inl err"
  then show "delivery_ext e i c \<noteq> None"
    by (simp add: delivery_ext_def split: sum.splits)
  from a show "transport_calls_ext e c = []"
    by (simp add: transport_calls_ext_def split: sum.splits)
next
  assume a: "\<forall>s. founderName c \<noteq> Str s"
  then show "delivery_ext e i c \<noteq> None"
    by (cases "founderName c")
      (simp_all add: delivery_ext_def createPersonalizedEmail_def clean_name_ext_def)
  from a show "transport_calls_ext e c = []"
    by (cases "founderName c")
      (simp_all add: transport_calls_ext_def createPersonalizedEmail_def clean_name_ext_def)
qed

theorem summary_counts_witness:
  "toSend_ext (snd (loadSentLog (Content prior_log))) [contact_old, contact1] = [contact1]
   \<and> (\<exists>body st. sendBulkEmails_ext env_ok (Content [contact_old, contact1]) (Content prior_log)
                    = (body @ [Summary 1 0 (Some LOG_FILE)], Done st)
         \<and> successCount st = 1 \<and> failCount st = 0)
   \<and> toSend_ext (snd (loadSentLog (Content prior_log))) [contact_old] = []
   \<and> sendBulkEmails_ext env_ok (Content [contact_old]) (Content prior_log)
       = ([NothingNew], NothingToSend)
   \<and> loadLog (Content prior_log) = Inr prior_log
   \<and> (\<exists>l' body. sendBulkEmails env_ok (Content [contact_old, contact1]) (Content prior_log)
                    = Inr (l', body @ [Summary 2 0 None]))"
proof -
  have t: "toSend_ext (snd (loadSentLog (Content prior_log))) [contact_old, contact1] = [contact1]"
    "toSend_ext (snd (loadSentLog (Content prior_log))) [contact_old] = []"
    "toSend prior_log [contact_old, contact1] = [contact1]"
    by (simp_all add: toSend_ext_def loadSentLog_def run_defs input_defs)
  have l: "loadLog (Content prior_log) = Inr prior_log" "fst (loadSentLog (Content prior_log)) = []"
    by (simp_all add: loadLog_def loadSentLog_def)
  have d: "delivery_ext env_ok 0 contact1 = None" "delivery env_ok 0 contact1 = None"
    by (simp_all add: delivery_ext_def delivery_def createPersonalizedEmail_def clean_name_ext_def
        createTransport_ext_def input_defs Let_def)
  have p: "length (sent prior_log) = 1" "length (failed prior_log) = 0"
    by (simp_all add: prior_log_def)
  have A: "\<exists>body st. sendBulkEmails_ext env_ok (Content [contact_old, contact1]) (Content prior_log)
                    = (body @ [Summary 1 0 (Some LOG_FILE)], Done st)
         \<and> successCount st = 1 \<and> failCount st = 0"
    using summary_counts [where e = env_ok and companies = "[contact_old, contact1]"
      and lf = "Content prior_log", THEN conjunct1] t l d
    by auto
  have B: "sendBulkEmails_ext env_ok (Content [contact_old]) (Content prior_log)
       = ([NothingNew], NothingToSend)"
    using summary_counts [where e = env_ok and companies = "[contact_old]"
      and lf = "Content prior_log", THEN conjunct2, THEN conjunct1] t l
    by simp
  have C: "\<exists>l' body. sendBulkEmails env_ok (Content [contact_old, contact1]) (Content prior_log)
                    = Inr (l', body @ [Summary 2 0 None])"
    using summary_counts [where e = env_ok and companies = "[contact_old, contact1]"
      and lf' = "Content prior_log" and ?l0.0 = prior_log,
      THEN conjunct2, THEN conjunct2, THEN conjunct1] t l d p
    by auto
  from A B C t l show ?thesis by simp
qed

text \<open>
  The claim as stated fails on the simplified variant: with one entry of an earlier run
  in the log and one delivery in this run, the summary reports two sent.
\<close>

theorem summary_counts_counterexample:
  "(case sendBulkEmails env_ok (Content [contact1]) (Content prior_log) of
      Inr (l, evs) \<Rightarrow> (recipients evs, last evs)
    | Inl _ \<Rightarrow> ([], Usage)) = ([Str ''hr@one.com''], Summary 2 0 None)"
  by (simp add: run_defs input_defs)

subsection \<open>A contact without a founder name\<close>




text \<open>
  Claim C8 fails on the extended variant when the founder name is absent: the cleaned
  name is then not a non-empty name, so the greeting is to fall back to the company's
  team or the hiring manager, as the composer of the simplified variant does; the
  composer of the extended variant throws a \<open>TypeError\<close> instead, and a run logs the
  contact as failed without calling the transport.
\<close>

theorem extended_composer_no_fallback:
  "createPersonalizedEmail Undefined (Str ''Acme'') = Inl (TypeError type_error_undefined)
   \<and> body (createEmail Undefined (Str ''Acme'')) = ''Dear Acme team'' @ body_rest
   \<and> createPersonalizedEmail Undefined (Str ''N/A'') = Inl (TypeError type_error_undefined)
   \<and> body (createEmail Undefined (Str ''N/A'')) = ''Dear Hiring Manager'' @ body_rest
   \<and> (case sendBulkEmails_ext env_ok (Content [contact_nofounder]) Missing of
        (evs, res) \<Rightarrow>
          (mails evs, case res of Done st \<Rightarrow> map entry_error (failed (st_log st)) | _ \<Rightarrow> []))
       = ([], [Str type_error_undefined])"
  by (simp add: createPersonalizedEmail_def clean_name_ext_def createEmail_def clean_name_def
      greeting_def run_ext_defs input_defs)

end
